theory Spec2Isabelle
  imports Main "HOL-Library.Sublist" "HOL-Library.AList"
begin

section \<open>Python strings and number formatting\<close>

text \<open>
  A Python \<^verbatim>\<open>str\<close> is a \<^typ>\<open>string\<close>: a list of characters with code points below 256.
  Python's unbounded \<^verbatim>\<open>int\<close> is \<^typ>\<open>int\<close>; lengths and byte counts are \<^typ>\<open>nat\<close>.
\<close>

definition digit_char :: "nat \<Rightarrow> char" where
  "digit_char d = ''0123456789'' ! d"

text \<open>\<^verbatim>\<open>str(n)\<close> and \<^verbatim>\<open>f"{n}"\<close> for a natural number: its decimal digits.\<close>

fun show_nat :: "nat \<Rightarrow> string" where
  "show_nat n = (if n < 10 then [digit_char n] else show_nat (n div 10) @ [digit_char (n mod 10)])"

declare show_nat.simps [simp del]

definition show_int :: "int \<Rightarrow> string" where
  "show_int i = (if i < 0 then ''-'' @ show_nat (nat (- i)) else show_nat (nat i))"

text \<open>\<^verbatim>\<open>f"{n:0Wd}"\<close>: the sign first, then zeros up to the width \<open>W\<close>.\<close>

definition zero_pad :: "nat \<Rightarrow> string \<Rightarrow> string" where
  "zero_pad w ds = replicate (w - length ds) (CHR ''0'') @ ds"

definition fmt_0d :: "nat \<Rightarrow> int \<Rightarrow> string" where
  "fmt_0d w i =
     (if i < 0 then ''-'' @ zero_pad (w - 1) (show_nat (nat (- i))) else zero_pad w (show_nat (nat i)))"

text \<open>
  \<^verbatim>\<open>f"{size/1024:.1f}"\<close> for a byte count \<open>size\<close>. Below \<open>2 ^ 53\<close> the quotient
  \<^verbatim>\<open>size/1024\<close> is an exact binary fraction, and \<^verbatim>\<open>.1f\<close> rounds the exact value to one
  decimal, a tie going to the even digit: \<^verbatim>\<open>f"{256/1024:.1f}"\<close> is \<^verbatim>\<open>0.2\<close> and
  \<^verbatim>\<open>f"{768/1024:.1f}"\<close> is \<^verbatim>\<open>0.8\<close>. The model computes the number of tenths in integers.
\<close>

definition tenths_of_kb :: "nat \<Rightarrow> nat" where
  "tenths_of_kb size_bytes =
     (let q = (10 * size_bytes) div 1024; r = (10 * size_bytes) mod 1024
      in if r < 512 then q else if 512 < r then q + 1 else if even q then q else q + 1)"

definition fmt_kb_1f :: "nat \<Rightarrow> string" where
  "fmt_kb_1f size_bytes =
     (let t = tenths_of_kb size_bytes in show_nat (t div 10) @ ''.'' @ show_nat (t mod 10))"

text \<open>
  \<^verbatim>\<open>str.isspace\<close> on one character, which is also the class \<^verbatim>\<open>\s\<close> of \<^verbatim>\<open>re\<close> on a
  \<^verbatim>\<open>str\<close> pattern: code points 9 to 13, 28 to 32, 133 and 160.
\<close>

definition is_space :: "char \<Rightarrow> bool" where
  "is_space c = (let n = (of_char c :: nat) in (9 \<le> n \<and> n \<le> 13) \<or> (28 \<le> n \<and> n \<le> 32) \<or> n = 133 \<or> n = 160)"

text \<open>\<^verbatim>\<open>s.strip()\<close>\<close>

definition strip :: "string \<Rightarrow> string" where
  "strip s = rev (dropWhile is_space (rev (dropWhile is_space s)))"

text \<open>\<^verbatim>\<open>s.replace(old, new, 1)\<close>: the leftmost occurrence of \<open>old\<close> is replaced, if there is one.\<close>

fun replace_first :: "string \<Rightarrow> string \<Rightarrow> string \<Rightarrow> string" where
  "replace_first old new [] = (if old = [] then new else [])"
| "replace_first old new (c # cs) =
     (if prefix old (c # cs) then new @ drop (length old) (c # cs)
      else c # replace_first old new cs)"

section \<open>Paths\<close>

text \<open>
  A \<^verbatim>\<open>pathlib.Path\<close> is the list of its components; \<^verbatim>\<open>p / name\<close> appends one,
  \<^verbatim>\<open>p.parent\<close> drops the last, \<^verbatim>\<open>p.name\<close> is the last, \<^verbatim>\<open>str(p)\<close> joins them with a slash.
  \<^verbatim>\<open>p.stem\<close> is the name without its last suffix: with \<open>i\<close> the index of the last dot of the
  name, the name up to \<open>i\<close> when \<open>0 < i < len(name) - 1\<close>, the whole name otherwise.
\<close>

type_synonym path = "string list"

definition parent :: "path \<Rightarrow> path" where
  "parent p = butlast p"

definition name :: "path \<Rightarrow> string" where
  "name p = (if p = [] then [] else last p)"

fun rfind :: "char \<Rightarrow> string \<Rightarrow> nat option" where
  "rfind c [] = None"
| "rfind c (x # xs) =
     (case rfind c xs of Some i \<Rightarrow> Some (Suc i) | None \<Rightarrow> if x = c then Some 0 else None)"

definition stem :: "path \<Rightarrow> string" where
  "stem p =
     (case rfind (CHR ''.'') (name p) of
        Some i \<Rightarrow> if 0 < i \<and> i + 1 < length (name p) then take i (name p) else name p
      | None \<Rightarrow> name p)"

fun join_slash :: "string list \<Rightarrow> string" where
  "join_slash [] = []"
| "join_slash [c] = c"
| "join_slash (c # cs) = c @ ''/'' @ join_slash cs"

definition str_path :: "path \<Rightarrow> string" where
  "str_path p =
     (case p of
        [] \<Rightarrow> ''.''
      | c # cs \<Rightarrow> if c = ''/'' then ''/'' @ join_slash cs else join_slash p)"

section \<open>Configuration\<close>

text \<open>The class attributes of \<^verbatim>\<open>Config\<close> that the pipeline reads.\<close>

definition SAVE_PAGE_IMAGES :: bool where
  "SAVE_PAGE_IMAGES = True"

definition EXTRACT_EMBEDDED_IMAGES :: bool where
  "EXTRACT_EMBEDDED_IMAGES = True"

definition MIN_IMAGE_WIDTH :: int where
  "MIN_IMAGE_WIDTH = 100"

definition MIN_IMAGE_HEIGHT :: int where
  "MIN_IMAGE_HEIGHT = 100"

definition IMAGES_SUBDIR :: string where
  "IMAGES_SUBDIR = ''images''"

definition SAVE_IMAGE_METADATA_JSON :: bool where
  "SAVE_IMAGE_METADATA_JSON = True"

definition IMAGE_FORMAT :: string where
  "IMAGE_FORMAT = ''PNG''"

section \<open>The regular expression of the placeholder\<close>

text \<open>
  The fragment of \<^verbatim>\<open>re\<close> that the pattern uses: a literal, the classes \<^verbatim>\<open>[^c]\<close>, \<^verbatim>\<open>\s\<close>
  and \<^verbatim>\<open>.\<close> (which, with no flag, matches every character but a newline) under a greedy
  \<^verbatim>\<open>*\<close> or a lazy \<^verbatim>\<open>*?\<close>, a capturing group, concatenation, and the optional
  non-capturing group \<^verbatim>\<open>(?:r)?\<close>.
\<close>

datatype char_class = NotChar char | Space | Dot

fun in_class :: "char_class \<Rightarrow> char \<Rightarrow> bool" where
  "in_class (NotChar x) c = (c \<noteq> x)"
| "in_class Space c = is_space c"
| "in_class Dot c = (c \<noteq> CHR 0x0A)"

datatype regex =
    Lit string
  | Star char_class
  | LazyStar char_class
  | Group nat regex
  | Seq regex regex
  | Opt regex

text \<open>
  What is left of the input after \<^verbatim>\<open>C*\<close> and after \<^verbatim>\<open>C*?\<close>, in the order in which a
  backtracking matcher tries the alternatives: the greedy star gives up one character at a
  time, the lazy one takes one more at a time.
\<close>

fun greedy_rests :: "char_class \<Rightarrow> string \<Rightarrow> string list" where
  "greedy_rests C [] = [[]]"
| "greedy_rests C (c # cs) = (if in_class C c then greedy_rests C cs @ [c # cs] else [c # cs])"

fun lazy_rests :: "char_class \<Rightarrow> string \<Rightarrow> string list" where
  "lazy_rests C [] = [[]]"
| "lazy_rests C (c # cs) = (c # cs) # (if in_class C c then lazy_rests C cs else [])"

text \<open>
  All the ways in which a regular expression matches a prefix of the input, best first: each
  is the groups captured and the input that is left. The matcher of \<^verbatim>\<open>re\<close> returns the first.
\<close>

type_synonym groups = "nat \<rightharpoonup> string"

fun matches :: "regex \<Rightarrow> string \<Rightarrow> groups \<Rightarrow> (groups \<times> string) list" where
  "matches (Lit l) s g = (if prefix l s then [(g, drop (length l) s)] else [])"
| "matches (Star C) s g = map (Pair g) (greedy_rests C s)"
| "matches (LazyStar C) s g = map (Pair g) (lazy_rests C s)"
| "matches (Group n r) s g =
     map (\<lambda>(g', rest). (g'(n \<mapsto> take (length s - length rest) s), rest)) (matches r s g)"
| "matches (Seq r1 r2) s g = concat (map (\<lambda>(g', rest). matches r2 rest g') (matches r1 s g))"
| "matches (Opt r) s g = matches r s g @ [(g, s)]"

text \<open>
  \<^verbatim>\<open>re.search(pattern, s)\<close>: the first match at the leftmost position that has one. The
  result is the text before the match, the groups (group 0 is the whole match) and the text
  after the match.
\<close>

fun search :: "regex \<Rightarrow> string \<Rightarrow> (string \<times> groups \<times> string) option" where
  "search r [] =
     (case matches (Group 0 r) [] Map.empty of
        (g, rest) # _ \<Rightarrow> Some ([], g, rest)
      | [] \<Rightarrow> None)"
| "search r (c # cs) =
     (case matches (Group 0 r) (c # cs) Map.empty of
        (g, rest) # _ \<Rightarrow> Some ([], g, rest)
      | [] \<Rightarrow> map_option (\<lambda>(pre, g, rest). (c # pre, g, rest)) (search r cs))"

fun seqs :: "regex list \<Rightarrow> regex" where
  "seqs [] = Lit []"
| "seqs [r] = r"
| "seqs (r # rs) = Seq r (seqs rs)"

text \<open>
  \<^verbatim>\<open>pattern = r'!\[([^\]]*)\]\(IMAGE_PLACEHOLDER\)(?:\s*<!--\s*(.*?)\s*-->)?'\<close>
\<close>

definition pattern :: regex where
  "pattern =
     seqs [Lit ''!['', Group 1 (Star (NotChar (CHR '']''))), Lit ''](IMAGE_PLACEHOLDER)'',
           Opt (seqs [Star Space, Lit ''<!--'', Star Space, Group 2 (LazyStar Dot), Star Space,
                      Lit ''-->''])]"

section \<open>pdf\_to\_markdown.py: placeholder reconciliation\<close>

text \<open>The metadata dictionary of one extracted graphic.\<close>

record image_meta =
  m_filename :: string
  m_path :: string
  m_width :: int
  m_height :: int
  m_size :: nat
  m_format :: string
  m_page_num :: int
  m_index :: nat

text \<open>\<^verbatim>\<open>match.group(n)\<close> of a group that took part in the match.\<close>

definition group :: "groups \<Rightarrow> nat \<Rightarrow> string" where
  "group g n = (case g n of Some x \<Rightarrow> x | None \<Rightarrow> [])"

definition metadata_text :: "image_meta \<Rightarrow> int \<Rightarrow> string" where
  "metadata_text img_meta page_num =
     ''File: '' @ m_filename img_meta @ '' | '' @
     ''Dimensions: '' @ show_int (m_width img_meta) @ ''x'' @ show_int (m_height img_meta) @ ''px | '' @
     ''Size: '' @ fmt_kb_1f (m_size img_meta) @ ''KB | '' @
     ''Format: '' @ m_format img_meta @ '' | '' @
     ''Page: '' @ show_int page_num"

text \<open>The body of the loop \<^verbatim>\<open>for img_meta in extracted_images\<close>.\<close>

definition replace_one :: "string \<Rightarrow> int \<Rightarrow> string \<Rightarrow> image_meta \<Rightarrow> string" where
  "replace_one images_dirname page_num page_markdown img_meta =
     (let img_rel_path = images_dirname @ ''/'' @ m_filename img_meta in
      case search pattern page_markdown of
        Some (pre, g, rest) \<Rightarrow>
          let alt_text = group g 1;
              existing_comment = g 2;
              new_image_link = ''!['' @ alt_text @ '']('' @ img_rel_path @ '')'';
              replacement =
                (case existing_comment of
                   Some c \<Rightarrow>
                     if c \<noteq> []
                     then new_image_link @ ''\<newline><!-- '' @ c @ ''\<newline>'' @
                          metadata_text img_meta page_num @ '' -->''
                     else new_image_link @ ''\<newline><!-- '' @ metadata_text img_meta page_num @ '' -->''
                 | None \<Rightarrow>
                     new_image_link @ ''\<newline><!-- '' @ metadata_text img_meta page_num @ '' -->'')
          in replace_first (group g 0) replacement page_markdown
      | None \<Rightarrow> replace_first ''IMAGE_PLACEHOLDER'' img_rel_path page_markdown)"

definition replace_image_placeholders_single_page ::
  "string \<Rightarrow> image_meta list \<Rightarrow> int \<Rightarrow> string option \<Rightarrow> string" where
  "replace_image_placeholders_single_page page_markdown extracted_images page_num images_dirname =
     (case images_dirname of
        None \<Rightarrow> page_markdown
      | Some d \<Rightarrow>
          if extracted_images = [] \<or> d = [] then page_markdown
          else foldl (replace_one d page_num) page_markdown extracted_images)"

section \<open>Errors, files and the trace of a run\<close>

text \<open>
  An exception is a value; \<open>str_error\<close> is \<^verbatim>\<open>str(e)\<close>. \<open>Exception\<close> stands for whatever a
  collaborator (the rasterizer, PyMuPDF, the inference service) raises.
\<close>

datatype error =
    FileNotFoundError string
  | ValueError string
  | IndexError string
  | Exception string

fun str_error :: "error \<Rightarrow> string" where
  "str_error (FileNotFoundError m) = m"
| "str_error (ValueError m) = m"
| "str_error (IndexError m) = m"
| "str_error (Exception m) = m"

text \<open>
  \<^verbatim>\<open>json.dump\<close> is not serialised: a ledger file holds the JSON value itself.
\<close>

datatype json = JStr string | JInt int | JArr "json list" | JObj "(string \<times> json) list"

text \<open>
  A file is the list of the pieces written to it since it was last truncated; its content is
  their concatenation. Opening with \<^verbatim>\<open>'w'\<close>, \<^verbatim>\<open>'wb'\<close> or \<^verbatim>\<open>write_text\<close> truncates,
  opening with \<^verbatim>\<open>'a'\<close> appends (and creates a missing file).
\<close>

datatype chunk = Text string | Bytes string | Json json

text \<open>
  The calls to the collaborators, the sleeps and the log records of level ERROR, in the order
  in which a run makes them. Records of the other levels are not modelled.
\<close>

datatype event =
    Rasterize int
  | ExtractImage nat
  | Invoke path
  | Sleep int
  | LogError string

text \<open>
  The directory of \<^verbatim>\<open>tempfile.mkdtemp\<close> is fresh and private to a run, so its files are a
  store of their own, \<open>temp_files\<close>. Directories are not modelled.
\<close>

record sys =
  files :: "path \<rightharpoonup> chunk list"
  temp_files :: "path \<rightharpoonup> string"
  trace :: "event list"

definition emit :: "event \<Rightarrow> sys \<Rightarrow> sys" where
  "emit e s = s\<lparr>trace := trace s @ [e]\<rparr>"

definition write_file :: "path \<Rightarrow> chunk \<Rightarrow> sys \<Rightarrow> sys" where
  "write_file p c s = s\<lparr>files := (files s)(p \<mapsto> [c])\<rparr>"

definition append_file :: "path \<Rightarrow> chunk \<Rightarrow> sys \<Rightarrow> sys" where
  "append_file p c s =
     s\<lparr>files := (files s)(p \<mapsto> (case files s p of None \<Rightarrow> [] | Some cs \<Rightarrow> cs) @ [c])\<rparr>"

text \<open>\<^verbatim>\<open>enumerate(xs, start)\<close>\<close>

definition enumerate_from :: "nat \<Rightarrow> 'a list \<Rightarrow> (nat \<times> 'a) list" where
  "enumerate_from start xs = zip [start ..< start + length xs] xs"

section \<open>image_extractor.py: ImageExtractor\<close>

text \<open>
  The document that \<^verbatim>\<open>fitz.open\<close> returns: its page count, for each 0-indexed page the
  xrefs that \<^verbatim>\<open>page.get_images()\<close> lists, and what \<^verbatim>\<open>doc.extract_image(xref)\<close> does: it
  raises, returns a falsy value, or returns the image dictionary.
\<close>

record base_image =
  bi_image :: string
  bi_ext :: string
  bi_width :: int
  bi_height :: int

datatype extract_result = Raised error | Falsy | Extracted base_image

record document =
  page_count :: int
  get_images :: "int \<Rightarrow> nat list"
  extract_image :: "nat \<Rightarrow> extract_result"

text \<open>
  The body of the loop \<^verbatim>\<open>for img_index, img in enumerate(image_list, 1)\<close>. Its
  \<^verbatim>\<open>try\<close> catches every exception of one graphic, logs it and goes on to the next graphic.
\<close>

definition extract_body ::
  "document \<Rightarrow> int \<Rightarrow> path \<Rightarrow> int \<Rightarrow> int \<Rightarrow> nat \<times> nat \<Rightarrow>
     image_meta list \<times> sys \<Rightarrow> image_meta list \<times> sys" where
  "extract_body doc page_num output_path min_width min_height img st =
     (case (img, st) of ((img_index, xref), (extracted_images, s)) \<Rightarrow>
        let s1 = emit (ExtractImage xref) s in
        case extract_image doc xref of
          Raised e \<Rightarrow>
            (extracted_images,
             emit (LogError (''Error extracting image '' @ show_nat img_index @ '' from page '' @
                             show_int page_num @ '': '' @ str_error e)) s1)
        | Falsy \<Rightarrow> (extracted_images, s1)
        | Extracted b \<Rightarrow>
            if bi_width b < min_width \<or> bi_height b < min_height
            then (extracted_images, s1)
            else
              let image_filename =
                    ''page_'' @ fmt_0d 3 page_num @ ''_img_'' @ fmt_0d 3 (int img_index) @ ''.'' @
                    bi_ext b;
                  image_path = output_path @ [image_filename];
                  s2 = write_file image_path (Bytes (bi_image b)) s1
              in (extracted_images @
                    [\<lparr>m_filename = image_filename, m_path = str_path image_path,
                      m_width = bi_width b, m_height = bi_height b,
                      m_size = length (bi_image b), m_format = bi_ext b,
                      m_page_num = page_num, m_index = img_index\<rparr>],
                  s2))"

definition extract_images_from_page ::
  "document \<Rightarrow> int \<Rightarrow> path \<Rightarrow> int \<Rightarrow> int \<Rightarrow> sys \<Rightarrow> (error + image_meta list) \<times> sys" where
  "extract_images_from_page doc page_num output_dir min_width min_height s =
     (if page_num < 1 \<or> page_num > page_count doc
      then (Inl (ValueError (''Invalid page number: '' @ show_int page_num)), s)
      else
        case fold (extract_body doc page_num output_dir min_width min_height)
               (enumerate_from 1 (get_images doc (page_num - 1))) ([], s) of
          (extracted_images, s') \<Rightarrow> (Inr extracted_images, s'))"

section \<open>The collaborators of a run\<close>

text \<open>
  What the libraries see of one PDF file: the page count that \<^verbatim>\<open>pdfinfo_from_path\<close>
  reports, the document that \<^verbatim>\<open>fitz.open\<close> returns, and for a resolution and a page number
  what \<^verbatim>\<open>convert_from_path\<close> does: it raises, or returns the page image.
\<close>

record pdf =
  pdfinfo_pages :: int
  fitz_open :: document
  convert_from_path :: "int \<Rightarrow> int \<Rightarrow> error + string"

text \<open>
  The world of one run: the PDF files that exist, the directory that \<^verbatim>\<open>tempfile.mkdtemp\<close>
  creates, the two formatted readings of the clock (\<^verbatim>\<open>strftime\<close> for the header,
  \<^verbatim>\<open>isoformat\<close> for the metadata ledger), and the inference service: what
  \<^verbatim>\<open>BedrockClient.image_to_markdown\<close> does for an image path, which may depend on everything
  that happened before the call.
\<close>

record world =
  pdf_at :: "path \<rightharpoonup> pdf"
  mkdtemp :: path
  strftime_now :: string
  isoformat_now :: string
  infer :: "event list \<Rightarrow> path \<Rightarrow> error + string"

definition image_to_markdown :: "world \<Rightarrow> path \<Rightarrow> sys \<Rightarrow> (error + string) \<times> sys" where
  "image_to_markdown w image_path s = (infer w (trace s) image_path, emit (Invoke image_path) s)"

section \<open>pdf\_to\_markdown.py: the output assembler\<close>

definition markdown_header :: "string \<Rightarrow> string \<Rightarrow> nat \<Rightarrow> string" where
  "markdown_header document_name now total_pages =
     ''# '' @ document_name @ ''\<newline>\<newline>'' @
     ''*Converted from PDF using Zerox OCR approach with Amazon Bedrock Claude Sonnet 4.5*\<newline>\<newline>'' @
     ''*Conversion date: '' @ now @ ''*\<newline>\<newline>'' @
     ''*Total pages: '' @ show_nat total_pages @ ''*\<newline>\<newline>'' @
     ''---\<newline>\<newline>''"

definition write_markdown_header :: "world \<Rightarrow> path \<Rightarrow> string \<Rightarrow> nat \<Rightarrow> sys \<Rightarrow> sys" where
  "write_markdown_header w output_path document_name total_pages s =
     write_file output_path (Text (markdown_header document_name (strftime_now w) total_pages)) s"

definition page_content :: "nat \<Rightarrow> string \<Rightarrow> string" where
  "page_content page_num page_markdown =
     ''## Page '' @ show_nat page_num @ ''\<newline>\<newline>'' @ strip page_markdown @
     ''\<newline>\<newline>---\<newline>\<newline>''"

definition append_markdown_page :: "path \<Rightarrow> nat \<Rightarrow> string \<Rightarrow> sys \<Rightarrow> sys" where
  "append_markdown_page output_path page_num page_markdown s =
     append_file output_path (Text (page_content page_num page_markdown)) s"

definition image_meta_json :: "image_meta \<Rightarrow> json" where
  "image_meta_json m =
     JObj [(''filename'', JStr (m_filename m)), (''path'', JStr (m_path m)),
           (''width'', JInt (m_width m)), (''height'', JInt (m_height m)),
           (''size'', JInt (int (m_size m))), (''format'', JStr (m_format m)),
           (''page_num'', JInt (m_page_num m)), (''index'', JInt (int (m_index m)))]"

text \<open>
  \<open>extracted_images\<close> is a \<^verbatim>\<open>dict\<close> from page numbers to lists of metadata: an association
  list in insertion order.
\<close>

definition metadata_json :: "string \<Rightarrow> string \<Rightarrow> (int \<times> image_meta list) list \<Rightarrow> json" where
  "metadata_json document_name now extracted_images =
     (let all_images = foldl (\<lambda>all_images (page_num, images). all_images @ images) [] extracted_images
      in JObj [(''document'', JStr document_name),
               (''conversion_date'', JStr now),
               (''total_pages'', JInt (int (length extracted_images))),
               (''total_images'', JInt (int (length all_images))),
               (''images'', JArr (map image_meta_json all_images))])"

definition save_image_metadata ::
  "world \<Rightarrow> (int \<times> image_meta list) list \<Rightarrow> path \<Rightarrow> string \<Rightarrow> sys \<Rightarrow> sys" where
  "save_image_metadata w extracted_images output_path document_name s =
     (if extracted_images = [] then s
      else
        let metadata_file = parent output_path @ [stem output_path @ ''_images_metadata.json'']
        in write_file metadata_file
             (Json (metadata_json document_name (isoformat_now w) extracted_images)) s)"

section \<open>pdf\_to\_markdown.py: pdf\_to\_images\<close>

text \<open>\<^verbatim>\<open>output_format.lower()\<close>, for a format name in ASCII.\<close>

definition lower :: "string \<Rightarrow> string" where
  "lower s =
     map (\<lambda>c. case map_of (zip ''ABCDEFGHIJKLMNOPQRSTUVWXYZ'' ''abcdefghijklmnopqrstuvwxyz'') c of
                Some l \<Rightarrow> l
              | None \<Rightarrow> c) s"

text \<open>The body of the loop \<^verbatim>\<open>for page_num in range(first_page, last_page + 1)\<close>.\<close>

definition rasterize_body ::
  "pdf \<Rightarrow> int \<Rightarrow> string \<Rightarrow> path \<Rightarrow> int \<Rightarrow> path list \<times> sys \<Rightarrow> (error + path list) \<times> sys" where
  "rasterize_body d dpi output_format temp_dir page_num st =
     (case st of (image_paths, s) \<Rightarrow>
        let s1 = emit (Rasterize page_num) s in
        case convert_from_path d dpi page_num of
          Inl e \<Rightarrow> (Inl e, s1)
        | Inr page_image \<Rightarrow>
            let image_path = temp_dir @ [''page_'' @ fmt_0d 4 page_num @ ''.'' @ lower output_format]
            in (Inr (image_paths @ [image_path]),
                s1\<lparr>temp_files := (temp_files s1)(image_path \<mapsto> page_image)\<rparr>))"

fun rasterize_loop ::
  "pdf \<Rightarrow> int \<Rightarrow> string \<Rightarrow> path \<Rightarrow> int list \<Rightarrow> path list \<times> sys \<Rightarrow> (error + path list) \<times> sys" where
  "rasterize_loop d dpi output_format temp_dir [] st = (Inr (fst st), snd st)"
| "rasterize_loop d dpi output_format temp_dir (page_num # rest) st =
     (case rasterize_body d dpi output_format temp_dir page_num st of
        (Inl e, s1) \<Rightarrow> (Inl e, s1)
      | (Inr image_paths, s1) \<Rightarrow> rasterize_loop d dpi output_format temp_dir rest (image_paths, s1))"

text \<open>
  The \<^verbatim>\<open>try\<close> block of \<^verbatim>\<open>pdf_to_images\<close>: the defaults of the page range, its
  validation, then the loop.
\<close>

definition pdf_to_images_try ::
  "world \<Rightarrow> pdf \<Rightarrow> int \<Rightarrow> string \<Rightarrow> int option \<Rightarrow> int option \<Rightarrow> sys \<Rightarrow> (error + path list) \<times> sys" where
  "pdf_to_images_try w d dpi output_format first_page last_page s =
     (let temp_dir = mkdtemp w;
          total_pages = pdfinfo_pages d;
          first_page = (case first_page of None \<Rightarrow> 1 | Some f \<Rightarrow> f);
          last_page = (case last_page of None \<Rightarrow> total_pages | Some l \<Rightarrow> l)
      in if first_page < 1 \<or> first_page > total_pages
         then (Inl (ValueError (''first_page '' @ show_int first_page @ '' is out of range (1-'' @
                                show_int total_pages @ '')'')), s)
         else if last_page < first_page \<or> last_page > total_pages
         then (Inl (ValueError (''last_page '' @ show_int last_page @ '' is out of range ('' @
                                show_int first_page @ ''-'' @ show_int total_pages @ '')'')), s)
         else rasterize_loop d dpi output_format temp_dir [first_page .. last_page] ([], s))"

text \<open>The handler logs the exception and raises it again.\<close>

definition pdf_to_images ::
  "world \<Rightarrow> pdf \<Rightarrow> int \<Rightarrow> string \<Rightarrow> int option \<Rightarrow> int option \<Rightarrow> sys \<Rightarrow> (error + path list) \<times> sys" where
  "pdf_to_images w d dpi output_format first_page last_page s =
     (case pdf_to_images_try w d dpi output_format first_page last_page s of
        (Inl e, s1) \<Rightarrow>
          (Inl e, emit (LogError (''Failed to convert PDF to images: '' @ str_error e)) s1)
      | (Inr image_paths, s1) \<Rightarrow> (Inr image_paths, s1))"

section \<open>pdf\_to\_markdown.py: convert\_pdf\_to\_markdown\<close>

text \<open>\<^verbatim>\<open>shutil.copy(src, dst)\<close> from the temporary directory.\<close>

definition copy_from_temp :: "path \<Rightarrow> path \<Rightarrow> sys \<Rightarrow> (error + unit) \<times> sys" where
  "copy_from_temp src dst s =
     (case temp_files s src of
        None \<Rightarrow> (Inl (FileNotFoundError (''No such file or directory: '' @ str_path src)), s)
      | Some b \<Rightarrow> (Inr (), write_file dst (Bytes b) s))"

text \<open>
  Step 2, the body of the loop \<^verbatim>\<open>for idx, temp_image_path in enumerate(image_paths)\<close>:
  the page image is copied, the embedded graphics of the page are extracted, and a
  non-empty result is stored under the page number. Nothing here catches an exception.
\<close>

definition step2_body ::
  "document option \<Rightarrow> path option \<Rightarrow> int \<Rightarrow> nat \<times> path \<Rightarrow>
     (int \<times> image_meta list) list \<times> sys \<Rightarrow> (error + (int \<times> image_meta list) list) \<times> sys" where
  "step2_body image_extractor images_dir page_start x st =
     (case (x, st) of ((idx, temp_image_path), (all_extracted_images, s)) \<Rightarrow>
        let page_num = page_start + int idx in
        case (case images_dir of
                Some dir \<Rightarrow>
                  if SAVE_PAGE_IMAGES
                  then copy_from_temp temp_image_path (dir @ [''page_'' @ fmt_0d 3 page_num @ ''.png'']) s
                  else (Inr (), s)
              | None \<Rightarrow> (Inr (), s)) of
          (Inl e, s1) \<Rightarrow> (Inl e, s1)
        | (Inr _, s1) \<Rightarrow>
            (case (images_dir, image_extractor) of
               (Some dir, Some doc) \<Rightarrow>
                 if EXTRACT_EMBEDDED_IMAGES
                 then
                   (case extract_images_from_page doc page_num dir MIN_IMAGE_WIDTH MIN_IMAGE_HEIGHT s1 of
                      (Inl e, s2) \<Rightarrow> (Inl e, s2)
                    | (Inr extracted, s2) \<Rightarrow>
                        if extracted \<noteq> []
                        then (Inr (AList.update page_num extracted all_extracted_images), s2)
                        else (Inr all_extracted_images, s2))
                 else (Inr all_extracted_images, s1)
             | _ \<Rightarrow> (Inr all_extracted_images, s1)))"

fun step2_loop ::
  "document option \<Rightarrow> path option \<Rightarrow> int \<Rightarrow> (nat \<times> path) list \<Rightarrow>
     (int \<times> image_meta list) list \<times> sys \<Rightarrow> (error + (int \<times> image_meta list) list) \<times> sys" where
  "step2_loop image_extractor images_dir page_start [] st = (Inr (fst st), snd st)"
| "step2_loop image_extractor images_dir page_start (x # rest) st =
     (case step2_body image_extractor images_dir page_start x st of
        (Inl e, s1) \<Rightarrow> (Inl e, s1)
      | (Inr all_extracted_images, s1) \<Rightarrow>
          step2_loop image_extractor images_dir page_start rest (all_extracted_images, s1))"

text \<open>The two local constants of the retry loop.\<close>

definition max_retries :: nat where
  "max_retries = 3"

definition retry_delay :: int where
  "retry_delay = 2"

text \<open>An entry of \<^verbatim>\<open>failed_pages\<close>.\<close>

record failure =
  f_page_num :: nat
  f_image_path :: string
  f_error :: string

definition failure_json :: "failure \<Rightarrow> json" where
  "failure_json f =
     JObj [(''page_num'', JInt (int (f_page_num f))), (''image_path'', JStr (f_image_path f)),
           (''error'', JStr (f_error f))]"

text \<open>
  One pass of \<^verbatim>\<open>for attempt in range(1, max_retries + 1)\<close>. The loop state is
  \<^verbatim>\<open>page_markdown\<close> (\<open>None\<close> at first), \<^verbatim>\<open>failed_pages\<close> and the system. \<open>Break\<close> is the
  \<^verbatim>\<open>break\<close> after a success; \<open>Continue\<close> is the end of the handler.
\<close>

datatype 'a loop = Break 'a | Continue 'a

definition attempt_body ::
  "world \<Rightarrow> path \<Rightarrow> nat \<Rightarrow> int \<Rightarrow> (int \<times> image_meta list) list \<Rightarrow> path option \<Rightarrow> nat \<Rightarrow>
     string option \<times> failure list \<times> sys \<Rightarrow> (string option \<times> failure list \<times> sys) loop" where
  "attempt_body w image_path idx page_num all_extracted_images images_dir attempt st =
     (case st of (page_markdown, failed_pages, s) \<Rightarrow>
        case image_to_markdown w image_path s of
          (Inr text, s1) \<Rightarrow>
            Break
              (Some (case map_of all_extracted_images page_num of
                       Some images \<Rightarrow>
                         if images \<noteq> []
                         then replace_image_placeholders_single_page text images page_num
                                (map_option name images_dir)
                         else text
                     | None \<Rightarrow> text),
               failed_pages, s1)
        | (Inl e, s1) \<Rightarrow>
            let s2 = emit (LogError (''Failed to process page '' @ show_nat idx @ '' (attempt '' @
                                     show_nat attempt @ ''/'' @ show_nat max_retries @ ''): '' @
                                     str_error e)) s1
            in if attempt < max_retries
               then Continue (page_markdown, failed_pages,
                              emit (Sleep (retry_delay * 2 ^ (attempt - 1))) s2)
               else Continue
                      (Some (''*[ERROR: Failed to process page '' @ show_nat idx @ '' after '' @
                             show_nat max_retries @ '' attempts]*\<newline>\<newline>'' @
                             ''*Error: '' @ str_error e @ ''*''),
                       failed_pages @
                         [\<lparr>f_page_num = idx, f_image_path = str_path image_path,
                           f_error = str_error e\<rparr>],
                       emit (LogError (''Page '' @ show_nat idx @ '' failed after '' @
                                       show_nat max_retries @ '' attempts - skipping'')) s2))"

fun retry_loop ::
  "world \<Rightarrow> path \<Rightarrow> nat \<Rightarrow> int \<Rightarrow> (int \<times> image_meta list) list \<Rightarrow> path option \<Rightarrow> nat list \<Rightarrow>
     string option \<times> failure list \<times> sys \<Rightarrow> string option \<times> failure list \<times> sys" where
  "retry_loop w image_path idx page_num all_extracted_images images_dir [] st = st"
| "retry_loop w image_path idx page_num all_extracted_images images_dir (attempt # rest) st =
     (case attempt_body w image_path idx page_num all_extracted_images images_dir attempt st of
        Break st' \<Rightarrow> st'
      | Continue st' \<Rightarrow>
          retry_loop w image_path idx page_num all_extracted_images images_dir rest st')"

text \<open>
  Step 3, the body of the loop \<^verbatim>\<open>for idx, image_path in enumerate(image_paths, 1)\<close>: the
  retry loop, then the append, which \<^verbatim>\<open>if output_path_obj and page_markdown\<close> guards.
\<close>

definition page_body ::
  "world \<Rightarrow> path option \<Rightarrow> (int \<times> image_meta list) list \<Rightarrow> path option \<Rightarrow> int \<Rightarrow>
     nat \<times> path \<Rightarrow> failure list \<times> sys \<Rightarrow> failure list \<times> sys" where
  "page_body w output_path_obj all_extracted_images images_dir page_start x st =
     (case (x, st) of ((idx, image_path), (failed_pages, s)) \<Rightarrow>
        let page_num = page_start + int idx - 1 in
        case retry_loop w image_path idx page_num all_extracted_images images_dir
               [1 ..< max_retries + 1] (None, failed_pages, s) of
          (page_markdown, failed_pages1, s1) \<Rightarrow>
            (case (output_path_obj, page_markdown) of
               (Some out, Some md) \<Rightarrow>
                 if md \<noteq> [] then (failed_pages1, append_markdown_page out idx md s1)
                 else (failed_pages1, s1)
             | _ \<Rightarrow> (failed_pages1, s1)))"

text \<open>Step 4: the failure ledger and the metadata ledger.\<close>

definition step4 ::
  "world \<Rightarrow> path option \<Rightarrow> string \<Rightarrow> failure list \<Rightarrow> (int \<times> image_meta list) list \<Rightarrow> sys \<Rightarrow> sys" where
  "step4 w output_path_obj document_name failed_pages all_extracted_images s =
     (case output_path_obj of
        None \<Rightarrow> s
      | Some out \<Rightarrow>
          let s1 = (if failed_pages \<noteq> []
                    then write_file (parent out @ [stem out @ ''_failed_pages.json''])
                           (Json (JArr (map failure_json failed_pages))) s
                    else s)
          in if all_extracted_images \<noteq> []
             then (if SAVE_IMAGE_METADATA_JSON
                   then save_image_metadata w all_extracted_images out document_name s1
                   else s1)
             else s1)"

text \<open>\<^verbatim>\<open>shutil.rmtree(temp_dir)\<close>\<close>

definition rmtree :: "path \<Rightarrow> sys \<Rightarrow> sys" where
  "rmtree temp_dir s = s\<lparr>temp_files := (\<lambda>p. if prefix temp_dir p then None else temp_files s p)\<rparr>"

text \<open>
  The value that a run returns is a sentence with the number of successful pages, the number
  of pages and their ratio in percent; the ratio is a floating-point number, and the model
  returns the two counts.
\<close>

record summary =
  successful :: nat
  total :: nat

text \<open>Steps 2 to 4, which run once \<^verbatim>\<open>pdf_to_images\<close> has returned.\<close>

definition steps_2_to_4 ::
  "world \<Rightarrow> path \<Rightarrow> path option \<Rightarrow> int option \<Rightarrow> document option \<Rightarrow> path option \<Rightarrow> path list \<Rightarrow>
     sys \<Rightarrow> (error + summary) \<times> sys" where
  "steps_2_to_4 w pdf_path output_path first_page image_extractor images_dir image_paths s =
     (let page_start = (case first_page of None \<Rightarrow> 1 | Some f \<Rightarrow> if f \<noteq> 0 then f else 1) in
      case step2_loop image_extractor images_dir page_start (enumerate_from 0 image_paths) ([], s) of
        (Inl e, s1) \<Rightarrow> (Inl e, s1)
      | (Inr all_extracted_images, s1) \<Rightarrow>
          let s2 = (case output_path of
                      None \<Rightarrow> s1
                    | Some out \<Rightarrow> write_markdown_header w out (stem pdf_path) (length image_paths) s1)
          in case fold (page_body w output_path all_extracted_images images_dir page_start)
                    (enumerate_from 1 image_paths) ([], s2) of
               (failed_pages, s3) \<Rightarrow>
                 (Inr \<lparr>successful = length image_paths - length failed_pages,
                       total = length image_paths\<rparr>,
                  step4 w output_path (stem pdf_path) failed_pages all_extracted_images s3))"

text \<open>
  The whole run. \<open>output_path\<close> is \<open>None\<close> for the two falsy values of the argument (\<^verbatim>\<open>None\<close>
  and the empty string). The \<^verbatim>\<open>finally\<close> block removes the temporary directory once
  \<^verbatim>\<open>temp_dir\<close> is set, that is once \<^verbatim>\<open>pdf_to_images\<close> has returned.
\<close>

definition convert_pdf_to_markdown ::
  "world \<Rightarrow> path \<Rightarrow> path option \<Rightarrow> int \<Rightarrow> int option \<Rightarrow> int option \<Rightarrow> sys \<Rightarrow>
     (error + summary) \<times> sys" where
  "convert_pdf_to_markdown w pdf_path output_path dpi first_page last_page s =
     (case pdf_at w pdf_path of
        None \<Rightarrow> (Inl (FileNotFoundError (''PDF file not found: '' @ str_path pdf_path)), s)
      | Some d \<Rightarrow>
          let images_dir =
                (case output_path of
                   Some out \<Rightarrow>
                     if SAVE_PAGE_IMAGES \<or> EXTRACT_EMBEDDED_IMAGES
                     then Some (parent out @ [stem out @ ''_'' @ IMAGES_SUBDIR])
                     else None
                 | None \<Rightarrow> None);
              image_extractor = (if EXTRACT_EMBEDDED_IMAGES then Some (fitz_open d) else None)
          in case pdf_to_images w d dpi IMAGE_FORMAT first_page last_page s of
               (Inl e, s1) \<Rightarrow> (Inl e, s1)
             | (Inr image_paths, s1) \<Rightarrow>
                 (case image_paths of
                    [] \<Rightarrow> (Inl (IndexError ''list index out of range''), s1)
                  | image_path0 # _ \<Rightarrow>
                      (case steps_2_to_4 w pdf_path output_path first_page image_extractor images_dir
                              image_paths s1 of
                         (r, s2) \<Rightarrow> (r, rmtree (parent image_path0) s2))))"

section \<open>Notions used to state the results\<close>

text \<open>
  None of the definitions of this section is part of the program: they name what the
  theorems say about it.
\<close>

text \<open>
  The graphics of a page that the extractor returns: of the graphics that the page lists,
  those that PyMuPDF extracts and that are at least as wide and as high as the minimum, in
  the order of the list.
\<close>

definition graphic_of ::
  "document \<Rightarrow> int \<Rightarrow> path \<Rightarrow> int \<Rightarrow> int \<Rightarrow> nat \<times> nat \<Rightarrow> image_meta list" where
  "graphic_of doc page_num output_path min_width min_height x =
     (case x of (img_index, xref) \<Rightarrow>
        case extract_image doc xref of
          Extracted b \<Rightarrow>
            if bi_width b < min_width \<or> bi_height b < min_height then []
            else
              let image_filename =
                    ''page_'' @ fmt_0d 3 page_num @ ''_img_'' @ fmt_0d 3 (int img_index) @ ''.'' @
                    bi_ext b
              in [\<lparr>m_filename = image_filename, m_path = str_path (output_path @ [image_filename]),
                   m_width = bi_width b, m_height = bi_height b,
                   m_size = length (bi_image b), m_format = bi_ext b,
                   m_page_num = page_num, m_index = img_index\<rparr>]
        | _ \<Rightarrow> [])"

definition page_graphics :: "document \<Rightarrow> int \<Rightarrow> path \<Rightarrow> int \<Rightarrow> int \<Rightarrow> image_meta list" where
  "page_graphics doc page_num output_path min_width min_height =
     concat (map (graphic_of doc page_num output_path min_width min_height)
               (enumerate_from 1 (get_images doc (page_num - 1))))"

text \<open>The ERROR record of a graphic on which PyMuPDF raises.\<close>

definition extract_error_log :: "document \<Rightarrow> int \<Rightarrow> nat \<times> nat \<Rightarrow> event list" where
  "extract_error_log doc page_num x =
     (case x of (img_index, xref) \<Rightarrow>
        case extract_image doc xref of
          Raised e \<Rightarrow>
            [LogError (''Error extracting image '' @ show_nat img_index @ '' from page '' @
                       show_int page_num @ '': '' @ str_error e)]
        | _ \<Rightarrow> [])"

text \<open>The temporary file of a page image.\<close>

definition raster_path :: "path \<Rightarrow> string \<Rightarrow> int \<Rightarrow> path" where
  "raster_path temp_dir output_format page_num =
     temp_dir @ [''page_'' @ fmt_0d 4 page_num @ ''.'' @ lower output_format]"

text \<open>
  What step 2 does with the graphics of one page, and the dictionary that it builds for a
  list of pages.
\<close>

definition store_graphics ::
  "document \<Rightarrow> path \<Rightarrow> (int \<times> image_meta list) list \<Rightarrow> int \<Rightarrow> (int \<times> image_meta list) list" where
  "store_graphics doc dir all_extracted_images page_num =
     (let extracted = page_graphics doc page_num dir MIN_IMAGE_WIDTH MIN_IMAGE_HEIGHT
      in if extracted \<noteq> [] then AList.update page_num extracted all_extracted_images
         else all_extracted_images)"

definition pages_with_graphics :: "document \<Rightarrow> path \<Rightarrow> int list \<Rightarrow> (int \<times> image_meta list) list" where
  "pages_with_graphics doc dir pages =
     filter (\<lambda>(page_num, extracted). extracted \<noteq> [])
       (map (\<lambda>page_num. (page_num, page_graphics doc page_num dir MIN_IMAGE_WIDTH MIN_IMAGE_HEIGHT)) pages)"

text \<open>The text of a page after a successful inference: the placeholders are reconciled.\<close>

definition accepted_text ::
  "(int \<times> image_meta list) list \<Rightarrow> path option \<Rightarrow> int \<Rightarrow> string \<Rightarrow> string" where
  "accepted_text all_extracted_images images_dir page_num text =
     (case map_of all_extracted_images page_num of
        Some images \<Rightarrow>
          if images \<noteq> []
          then replace_image_placeholders_single_page text images page_num (map_option name images_dir)
          else text
      | None \<Rightarrow> text)"

text \<open>
  The two ERROR records of the retry loop, the text of the section of a failed page, and
  its failure record.
\<close>

definition attempt_failed_log :: "nat \<Rightarrow> nat \<Rightarrow> error \<Rightarrow> event" where
  "attempt_failed_log idx attempt e =
     LogError (''Failed to process page '' @ show_nat idx @ '' (attempt '' @ show_nat attempt @ ''/'' @
               show_nat max_retries @ ''): '' @ str_error e)"

definition page_failed_log :: "nat \<Rightarrow> event" where
  "page_failed_log idx =
     LogError (''Page '' @ show_nat idx @ '' failed after '' @ show_nat max_retries @
               '' attempts - skipping'')"

definition error_section :: "nat \<Rightarrow> error \<Rightarrow> string" where
  "error_section idx e =
     ''*[ERROR: Failed to process page '' @ show_nat idx @ '' after '' @ show_nat max_retries @
     '' attempts]*\<newline>\<newline>'' @ ''*Error: '' @ str_error e @ ''*''"

definition failure_record :: "nat \<Rightarrow> path \<Rightarrow> error \<Rightarrow> failure" where
  "failure_record idx image_path e =
     \<lparr>f_page_num = idx, f_image_path = str_path image_path, f_error = str_error e\<rparr>"

text \<open>
  The events of a failed attempt that is not the last: the call, the ERROR record, the sleep.
\<close>

definition failed_attempt :: "path \<Rightarrow> nat \<Rightarrow> nat \<Rightarrow> error \<Rightarrow> event list" where
  "failed_attempt image_path idx attempt e =
     [Invoke image_path, attempt_failed_log idx attempt e, Sleep (retry_delay * 2 ^ (attempt - 1))]"

definition add_events :: "event list \<Rightarrow> sys \<Rightarrow> sys" where
  "add_events evs s = s\<lparr>trace := trace s @ evs\<rparr>"

text \<open>What one page of step 3 yields: the accepted text, the new failure records, the new events.\<close>

definition page_outcome ::
  "world \<Rightarrow> (int \<times> image_meta list) list \<Rightarrow> path option \<Rightarrow> int \<Rightarrow> nat \<times> path \<Rightarrow> event list \<Rightarrow>
     string \<times> failure list \<times> event list \<Rightarrow> bool" where
  "page_outcome w all images_dir page_start x tr out =
     (case (x, out) of ((idx, p), (md, new_failed, evs)) \<Rightarrow>
        (\<exists>evs0 t. infer w (tr @ evs0) p = Inr t \<and>
            md = accepted_text all images_dir (page_start + int idx - 1) t \<and> new_failed = [] \<and>
            evs = evs0 @ [Invoke p] \<and>
            (evs0 = [] \<or>
             (\<exists>e1. infer w tr p = Inl e1 \<and> evs0 = failed_attempt p idx 1 e1) \<or>
             (\<exists>e1 e2. infer w tr p = Inl e1 \<and>
                infer w (tr @ failed_attempt p idx 1 e1) p = Inl e2 \<and>
                evs0 = failed_attempt p idx 1 e1 @ failed_attempt p idx 2 e2))) \<or>
        (\<exists>e1 e2 e3. infer w tr p = Inl e1 \<and>
            infer w (tr @ failed_attempt p idx 1 e1) p = Inl e2 \<and>
            infer w (tr @ failed_attempt p idx 1 e1 @ failed_attempt p idx 2 e2) p = Inl e3 \<and>
            md = error_section idx e3 \<and>
            new_failed = [failure_record idx p e3] \<and>
            evs = failed_attempt p idx 1 e1 @ failed_attempt p idx 2 e2 @
                   [Invoke p, attempt_failed_log idx 3 e3, page_failed_log idx]))"

text \<open>The sections that step 3 appends for a list of pages and their outcomes.\<close>

definition page_sections :: "(nat \<times> path) list \<Rightarrow> (string \<times> failure list \<times> event list) list \<Rightarrow> chunk list" where
  "page_sections xs outs =
     map (\<lambda>(x, out). Text (page_content (fst x) (fst out)))
       (filter (\<lambda>(x, out). fst out \<noteq> []) (zip xs outs))"

text \<open>The three paths that a run derives from the output path.\<close>

definition images_dir_of :: "path \<Rightarrow> path" where
  "images_dir_of out = parent out @ [stem out @ ''_'' @ IMAGES_SUBDIR]"

definition failed_pages_file :: "path \<Rightarrow> path" where
  "failed_pages_file out = parent out @ [stem out @ ''_failed_pages.json'']"

definition metadata_file :: "path \<Rightarrow> path" where
  "metadata_file out = parent out @ [stem out @ ''_images_metadata.json'']"

text \<open>
  The conditions under which a run returns: the PDF file exists, the page range \<open>fp\<close> to \<open>lp\<close>
  (after the defaults) is valid, every page of the range is rasterized without an error,
  and PyMuPDF sees every page of the range.
\<close>

definition valid_run ::
  "world \<Rightarrow> path \<Rightarrow> int \<Rightarrow> int option \<Rightarrow> int option \<Rightarrow> pdf \<Rightarrow> int \<Rightarrow> int \<Rightarrow> bool" where
  "valid_run w pdf_path dpi first_page last_page d fp lp \<longleftrightarrow>
     pdf_at w pdf_path = Some d \<and>
     fp = (case first_page of None \<Rightarrow> 1 | Some f \<Rightarrow> f) \<and>
     lp = (case last_page of None \<Rightarrow> pdfinfo_pages d | Some l \<Rightarrow> l) \<and>
     1 \<le> fp \<and> fp \<le> lp \<and> lp \<le> pdfinfo_pages d \<and>
     (\<forall>p \<in> {fp..lp}. \<exists>img. convert_from_path d dpi p = Inr img) \<and>
     lp \<le> page_count (fitz_open d)"

text \<open>The sections of a list of accepted page texts: an empty text has none.\<close>

definition sections :: "string list \<Rightarrow> chunk list" where
  "sections mds =
     map (\<lambda>(idx, md). Text (page_content idx md))
       (filter (\<lambda>(idx, md). md \<noteq> []) (enumerate_from 1 mds))"

text \<open>
  What an extraction may do to a file: leave it as it was, or leave in it the bytes of a
  graphic of the document whose width and height reach the minimum.
\<close>

definition written_graphic :: "document \<Rightarrow> int \<Rightarrow> int \<Rightarrow> sys \<Rightarrow> sys \<Rightarrow> path \<Rightarrow> bool" where
  "written_graphic doc min_width min_height s s' p \<longleftrightarrow>
     files s' p = files s p \<or>
     (\<exists>xref b. extract_image doc xref = Extracted b \<and> min_width \<le> bi_width b \<and>
        min_height \<le> bi_height b \<and> files s' p = Some [Bytes (bi_image b)])"

section \<open>A sample document and its worlds\<close>

text \<open>
  A document of two pages. Page 1 lists three graphics: the first is extracted, PyMuPDF raises
  on the second, the third is below the minimum width. Page 2 lists none.
\<close>

definition sample_document :: document where
  "sample_document =
     \<lparr>page_count = 2,
      get_images = (\<lambda>p. if p = 0 then [7, 8, 9] else []),
      extract_image =
        (\<lambda>xref.
           if xref = 7
           then Extracted \<lparr>bi_image = ''abcdefgh'', bi_ext = ''png'', bi_width = 640, bi_height = 480\<rparr>
           else if xref = 8 then Raised (Exception ''bad xref'')
           else Extracted \<lparr>bi_image = ''tiny'', bi_ext = ''png'', bi_width = 10, bi_height = 480\<rparr>)\<rparr>"

definition sample_pdf :: pdf where
  "sample_pdf =
     \<lparr>pdfinfo_pages = 2, fitz_open = sample_document,
      convert_from_path = (\<lambda>dpi page_num. Inr (''raster'' @ show_int page_num))\<rparr>"

definition sample_pdf_path :: path where
  "sample_pdf_path = [''pdf'', ''sample.pdf'']"

definition sample_output_path :: path where
  "sample_output_path = [''output'', ''sample.md'']"

text \<open>
  In the sample world the inference service answers for page 1 with a text that holds one
  placeholder, and raises for every other image.
\<close>

definition sample_world :: world where
  "sample_world =
     \<lparr>pdf_at = [sample_pdf_path \<mapsto> sample_pdf],
      mkdtemp = [''/'', ''tmp'', ''pdf2img_x''],
      strftime_now = ''2025-01-01 00:00:00'',
      isoformat_now = ''2025-01-01T00:00:00'',
      infer =
        (\<lambda>tr image_path.
           if image_path = [''/'', ''tmp'', ''pdf2img_x'', ''page_0001.png'']
           then Inr ''Hello ![fig](IMAGE_PLACEHOLDER) ''
           else Inl (Exception ''throttled''))\<rparr>"

text \<open>In the blank world the inference service answers with the empty string.\<close>

definition blank_world :: world where
  "blank_world = sample_world\<lparr>infer := (\<lambda>tr image_path. Inr [])\<rparr>"

definition empty_sys :: sys where
  "empty_sys = \<lparr>files = Map.empty, temp_files = Map.empty, trace = []\<rparr>"

text \<open>The temporary image of page 2 in the sample world.\<close>

definition page2_image :: path where
  "page2_image = [''/'', ''tmp'', ''pdf2img_x'', ''page_0002.png'']"

text \<open>
  The state that a run over the sample document in the blank world leaves, and a world
  with a later clock for a second run.
\<close>

definition after_first_run :: sys where
  "after_first_run =
     snd (convert_pdf_to_markdown blank_world sample_pdf_path (Some sample_output_path) 450 None None
            empty_sys)"

definition later_world :: world where
  "later_world = sample_world\<lparr>strftime_now := ''2025-01-02 00:00:00''\<rparr>"

text \<open>
  The directory of the graphics of the sample output, and the state after the extraction of
  page 1 of the sample document into it.
\<close>

definition sample_images_dir :: path where
  "sample_images_dir = [''output'', ''sample_images'']"

definition after_extraction :: sys where
  "after_extraction = snd (extract_images_from_page sample_document 1 sample_images_dir 100 100 empty_sys)"

text \<open>
  A world in which PyMuPDF sees only the first page of the sample file, while
  \<^verbatim>\<open>pdfinfo\<close> reports two, and the run over the whole file in that world.
\<close>

definition cut_world :: world where
  "cut_world =
     sample_world\<lparr>pdf_at := [sample_pdf_path \<mapsto>
       sample_pdf\<lparr>fitz_open := sample_document\<lparr>page_count := 1\<rparr>\<rparr>]\<rparr>"

definition cut_run :: "(error + summary) \<times> sys" where
  "cut_run =
     convert_pdf_to_markdown cut_world sample_pdf_path (Some sample_output_path) 450 None None
       empty_sys"

text \<open>A graphic of 2048 bytes, as \<^verbatim>\<open>extract_images_from_page\<close> describes the first graphic of page 1.\<close>

definition sample_graphic :: image_meta where
  "sample_graphic =
     \<lparr>m_filename = ''page_001_img_001.png'', m_path = ''output/doc_images/page_001_img_001.png'',
      m_width = 640, m_height = 480, m_size = 2048, m_format = ''png'', m_page_num = 1,
      m_index = 1\<rparr>"


section \<open>Basic facts about the state\<close>

lemma emit_simps [simp]:
  "files (emit e s) = files s"
  "temp_files (emit e s) = temp_files s"
  "trace (emit e s) = trace s @ [e]"
  by (simp_all add: emit_def)

lemma write_file_simps [simp]:
  "files (write_file p c s) = (files s)(p \<mapsto> [c])"
  "temp_files (write_file p c s) = temp_files s"
  "trace (write_file p c s) = trace s"
  by (simp_all add: write_file_def)

lemma append_file_simps [simp]:
  "files (append_file p c s) =
     (files s)(p \<mapsto> (case files s p of None \<Rightarrow> [] | Some cs \<Rightarrow> cs) @ [c])"
  "temp_files (append_file p c s) = temp_files s"
  "trace (append_file p c s) = trace s"
  by (simp_all add: append_file_def)

section \<open>An invalid page range\<close>

lemma pdf_to_images_invalid:
  assumes "fp = (case first_page of None \<Rightarrow> 1 | Some f \<Rightarrow> f)"
    and "lp = (case last_page of None \<Rightarrow> pdfinfo_pages d | Some l \<Rightarrow> l)"
    and "fp < 1 \<or> fp > pdfinfo_pages d \<or> lp < fp \<or> lp > pdfinfo_pages d"
  shows "\<exists>msg. pdf_to_images w d dpi fmt first_page last_page s =
           (Inl (ValueError msg), emit (LogError (''Failed to convert PDF to images: '' @ msg)) s)"
  using assms by (auto simp: pdf_to_images_def pdf_to_images_try_def Let_def)

text \<open>
  C8. With \<open>fp\<close> and \<open>lp\<close> the page range after the defaults (page 1, the last page of the
  document): if \<open>fp < 1\<close>, \<open>fp > total_pages\<close>, \<open>lp < fp\<close> or \<open>lp > total_pages\<close>, the run
  raises a \<^verbatim>\<open>ValueError\<close>. It leaves every file as it was, and all it adds to the trace
  is the ERROR record of \<^verbatim>\<open>pdf_to_images\<close>: no page is rasterized, no graphic is extracted,
  the inference service is not called, nothing is written to the output.
\<close>

theorem invalid_page_range_aborts_before_work:
  assumes "pdf_at w pdf_path = Some d"
    and "fp = (case first_page of None \<Rightarrow> 1 | Some f \<Rightarrow> f)"
    and "lp = (case last_page of None \<Rightarrow> pdfinfo_pages d | Some l \<Rightarrow> l)"
    and "fp < 1 \<or> fp > pdfinfo_pages d \<or> lp < fp \<or> lp > pdfinfo_pages d"
  shows "\<exists>msg s'. convert_pdf_to_markdown w pdf_path output_path dpi first_page last_page s =
            (Inl (ValueError msg), s') \<and>
          files s' = files s \<and> temp_files s' = temp_files s \<and>
          trace s' = trace s @ [LogError (''Failed to convert PDF to images: '' @ msg)]"
proof -
  from pdf_to_images_invalid [OF assms(2,3,4)] obtain msg where
    "pdf_to_images w d dpi IMAGE_FORMAT first_page last_page s =
       (Inl (ValueError msg), emit (LogError (''Failed to convert PDF to images: '' @ msg)) s)"
    by blast
  then show ?thesis
    using assms(1) by (simp add: convert_pdf_to_markdown_def Let_def)
qed

theorem invalid_page_range_witness:
  "pdf_at sample_world sample_pdf_path = Some sample_pdf \<and>
   (3::int) > pdfinfo_pages sample_pdf \<and>
   (\<exists>msg s'. convert_pdf_to_markdown sample_world sample_pdf_path (Some sample_output_path) 450
                  (Some 2) (Some 3) empty_sys = (Inl (ValueError msg), s') \<and>
              files s' = files empty_sys \<and> temp_files s' = temp_files empty_sys \<and>
              trace s' = trace empty_sys @ [LogError (''Failed to convert PDF to images: '' @ msg)])"
proof -
  have h1: "pdf_at sample_world sample_pdf_path = Some sample_pdf"
    by (simp add: sample_world_def)
  have h2: "(3::int) > pdfinfo_pages sample_pdf"
    by (simp add: sample_pdf_def)
  have h3: "(2::int) < 1 \<or> 2 > pdfinfo_pages sample_pdf \<or> (3::int) < 2 \<or> 3 > pdfinfo_pages sample_pdf"
    using h2 by simp
  show ?thesis
    using h1 h2
      invalid_page_range_aborts_before_work [OF h1, of 2 "Some 2" 3 "Some 3",
        where output_path = "Some sample_output_path" and dpi = 450 and s = empty_sys] h3
    by simp
qed

section \<open>The steps of a run\<close>

lemma extract_body_result:
  "extract_body doc page_num dir mw mh x (imgs, s) = (imgs', s') \<Longrightarrow>
     imgs' = imgs @ graphic_of doc page_num dir mw mh x \<and>
     trace s' = trace s @ ExtractImage (snd x) # extract_error_log doc page_num x \<and>
     temp_files s' = temp_files s \<and>
     (\<forall>p. files s' p \<noteq> files s p \<longrightarrow>
          (\<exists>m \<in> set (graphic_of doc page_num dir mw mh x). p = dir @ [m_filename m]))"
  by (cases x) (auto simp: extract_body_def graphic_of_def extract_error_log_def Let_def
      split: extract_result.splits if_splits)

lemma fold_extract_body_result:
  "fold (extract_body doc page_num dir mw mh) xs (imgs, s) = (imgs', s') \<Longrightarrow>
     imgs' = imgs @ concat (map (graphic_of doc page_num dir mw mh) xs) \<and>
     trace s' = trace s @ concat (map (\<lambda>x. ExtractImage (snd x) # extract_error_log doc page_num x) xs) \<and>
     temp_files s' = temp_files s \<and>
     (\<forall>p. files s' p \<noteq> files s p \<longrightarrow>
          (\<exists>m \<in> set (concat (map (graphic_of doc page_num dir mw mh) xs)). p = dir @ [m_filename m]))"
proof (induction xs arbitrary: imgs s)
  case Nil
  then show ?case by simp
next
  case (Cons x xs)
  obtain imgs1 s1 where b: "extract_body doc page_num dir mw mh x (imgs, s) = (imgs1, s1)"
    by (cases "extract_body doc page_num dir mw mh x (imgs, s)")
  from Cons.prems b have f: "fold (extract_body doc page_num dir mw mh) xs (imgs1, s1) = (imgs', s')"
    by simp
  note B = extract_body_result [OF b]
  note I = Cons.IH [OF f]
  show ?case
  proof (intro conjI allI impI)
    show "imgs' = imgs @ concat (map (graphic_of doc page_num dir mw mh) (x # xs))"
      using B I by simp
    show "trace s' = trace s @ concat (map (\<lambda>x. ExtractImage (snd x) # extract_error_log doc page_num x) (x # xs))"
      using B I by simp
    show "temp_files s' = temp_files s"
      using B I by simp
  next
    fix p assume "files s' p \<noteq> files s p"
    then have "files s' p \<noteq> files s1 p \<or> files s1 p \<noteq> files s p" by auto
    then show "\<exists>m \<in> set (concat (map (graphic_of doc page_num dir mw mh) (x # xs))). p = dir @ [m_filename m]"
    proof
      assume "files s' p \<noteq> files s1 p"
      with I obtain m where "m \<in> set (concat (map (graphic_of doc page_num dir mw mh) xs))"
        "p = dir @ [m_filename m]" by blast
      then show ?thesis by auto
    next
      assume "files s1 p \<noteq> files s p"
      with B obtain m where "m \<in> set (graphic_of doc page_num dir mw mh x)"
        "p = dir @ [m_filename m]" by blast
      then show ?thesis by auto
    qed
  qed
qed

lemma extract_images_from_page_result:
  assumes "1 \<le> page_num" "page_num \<le> page_count doc"
  shows "\<exists>s'. extract_images_from_page doc page_num dir mw mh s =
            (Inr (page_graphics doc page_num dir mw mh), s') \<and>
          trace s' = trace s @ concat (map (\<lambda>x. ExtractImage (snd x) # extract_error_log doc page_num x)
                                        (enumerate_from 1 (get_images doc (page_num - 1)))) \<and>
          temp_files s' = temp_files s \<and>
          (\<forall>p. files s' p \<noteq> files s p \<longrightarrow>
               (\<exists>m \<in> set (page_graphics doc page_num dir mw mh). p = dir @ [m_filename m]))"
proof -
  obtain imgs' s' where f: "fold (extract_body doc page_num dir mw mh)
      (enumerate_from 1 (get_images doc (page_num - 1))) ([], s) = (imgs', s')"
    by (cases "fold (extract_body doc page_num dir mw mh)
      (enumerate_from 1 (get_images doc (page_num - 1))) ([], s)")
  from fold_extract_body_result [OF f] assms f show ?thesis
    by (simp add: extract_images_from_page_def page_graphics_def)
qed

lemma graphic_of_dims:
  "m \<in> set (graphic_of doc page_num dir mw mh x) \<Longrightarrow> mw \<le> m_width m \<and> mh \<le> m_height m"
  by (cases x) (auto simp: graphic_of_def Let_def split: extract_result.splits if_splits)

lemma page_graphics_dims:
  "m \<in> set (page_graphics doc page_num dir mw mh) \<Longrightarrow> mw \<le> m_width m \<and> mh \<le> m_height m"
  by (auto simp: page_graphics_def dest: graphic_of_dims)

lemma rasterize_loop_ok:
  assumes "\<forall>p \<in> set pages. \<exists>img. convert_from_path d dpi p = Inr img"
  shows "\<exists>s'. rasterize_loop d dpi fmt td pages (paths, s) =
            (Inr (paths @ map (raster_path td fmt) pages), s') \<and>
          files s' = files s \<and> trace s' = trace s @ map Rasterize pages \<and>
          (\<forall>p \<in> set pages. temp_files s' (raster_path td fmt p) \<noteq> None) \<and>
          (\<forall>q. temp_files s q \<noteq> None \<longrightarrow> temp_files s' q \<noteq> None)"
  using assms
proof (induction pages arbitrary: paths s)
  case Nil
  then show ?case by simp
next
  case (Cons p pages)
  from Cons.prems obtain img where img: "convert_from_path d dpi p = Inr img" by auto
  define s1 where "s1 = (emit (Rasterize p) s)\<lparr>temp_files := (temp_files (emit (Rasterize p) s))(raster_path td fmt p \<mapsto> img)\<rparr>"
  have body: "rasterize_body d dpi fmt td p (paths, s) = (Inr (paths @ [raster_path td fmt p]), s1)"
    using img by (simp add: rasterize_body_def raster_path_def s1_def Let_def)
  from Cons.prems have "\<forall>p \<in> set pages. \<exists>img. convert_from_path d dpi p = Inr img" by simp
  from Cons.IH [OF this, of "paths @ [raster_path td fmt p]" s1] obtain s' where
    I: "rasterize_loop d dpi fmt td pages (paths @ [raster_path td fmt p], s1) =
          (Inr ((paths @ [raster_path td fmt p]) @ map (raster_path td fmt) pages), s')"
       "files s' = files s1" "trace s' = trace s1 @ map Rasterize pages"
       "\<forall>p \<in> set pages. temp_files s' (raster_path td fmt p) \<noteq> None"
       "\<forall>q. temp_files s1 q \<noteq> None \<longrightarrow> temp_files s' q \<noteq> None"
    by blast
  have s1: "files s1 = files s" "trace s1 = trace s @ [Rasterize p]"
    "temp_files s1 (raster_path td fmt p) \<noteq> None"
    "\<forall>q. temp_files s q \<noteq> None \<longrightarrow> temp_files s1 q \<noteq> None"
    by (simp_all add: s1_def)
  show ?case
    using body I s1 by auto
qed

lemma pdf_to_images_ok:
  assumes "fp = (case first_page of None \<Rightarrow> 1 | Some f \<Rightarrow> f)"
    and "lp = (case last_page of None \<Rightarrow> pdfinfo_pages d | Some l \<Rightarrow> l)"
    and "1 \<le> fp" "fp \<le> lp" "lp \<le> pdfinfo_pages d"
    and "\<forall>p \<in> {fp..lp}. \<exists>img. convert_from_path d dpi p = Inr img"
  shows "\<exists>s'. pdf_to_images w d dpi fmt first_page last_page s =
            (Inr (map (raster_path (mkdtemp w) fmt) [fp..lp]), s') \<and>
          files s' = files s \<and> trace s' = trace s @ map Rasterize [fp..lp] \<and>
          (\<forall>p \<in> {fp..lp}. temp_files s' (raster_path (mkdtemp w) fmt p) \<noteq> None)"
proof -
  from assms(6) have "\<forall>p \<in> set [fp..lp]. \<exists>img. convert_from_path d dpi p = Inr img" by simp
  from rasterize_loop_ok [OF this, of fmt "mkdtemp w" "[]" s] obtain s' where
    R: "rasterize_loop d dpi fmt (mkdtemp w) [fp..lp] ([], s) =
          (Inr (map (raster_path (mkdtemp w) fmt) [fp..lp]), s')"
       "files s' = files s" "trace s' = trace s @ map Rasterize [fp..lp]"
       "\<forall>p \<in> set [fp..lp]. temp_files s' (raster_path (mkdtemp w) fmt p) \<noteq> None"
    by auto
  have "pdf_to_images_try w d dpi fmt first_page last_page s =
          rasterize_loop d dpi fmt (mkdtemp w) [fp..lp] ([], s)"
    using assms(1-5) by (simp add: pdf_to_images_try_def Let_def)
  with R show ?thesis
    by (simp add: pdf_to_images_def)
qed

lemma copy_from_temp_ok:
  "temp_files s src = Some b \<Longrightarrow> copy_from_temp src dst s = (Inr (), write_file dst (Bytes b) s)"
  by (simp add: copy_from_temp_def)

lemma step2_body_ok:
  assumes "temp_files s tp \<noteq> None" "1 \<le> ps + int idx" "ps + int idx \<le> page_count doc"
  shows "\<exists>s'. step2_body (Some doc) (Some dir) ps (idx, tp) (all, s) =
            (Inr (store_graphics doc dir all (ps + int idx)), s') \<and>
          temp_files s' = temp_files s \<and>
          (\<forall>p. length p \<noteq> Suc (length dir) \<longrightarrow> files s' p = files s p) \<and>
          (\<exists>evs. trace s' = trace s @ evs \<and> (\<forall>e \<in> set evs. \<forall>q. e \<noteq> Invoke q))"
proof -
  from assms(1) obtain b where b: "temp_files s tp = Some b" by auto
  define s1 where "s1 = write_file (dir @ [''page_'' @ fmt_0d 3 (ps + int idx) @ ''.png'']) (Bytes b) s"
  have t1: "temp_files s1 = temp_files s" "trace s1 = trace s"
    "\<forall>p. length p \<noteq> Suc (length dir) \<longrightarrow> files s1 p = files s p"
    by (auto simp: s1_def)
  from extract_images_from_page_result [OF assms(2,3), of dir MIN_IMAGE_WIDTH MIN_IMAGE_HEIGHT s1]
  obtain s2 where
    E: "extract_images_from_page doc (ps + int idx) dir MIN_IMAGE_WIDTH MIN_IMAGE_HEIGHT s1 =
          (Inr (page_graphics doc (ps + int idx) dir MIN_IMAGE_WIDTH MIN_IMAGE_HEIGHT), s2)"
       "trace s2 = trace s1 @ concat (map (\<lambda>x. ExtractImage (snd x) # extract_error_log doc (ps + int idx) x)
                                        (enumerate_from 1 (get_images doc (ps + int idx - 1))))"
       "temp_files s2 = temp_files s1"
       "\<forall>p. files s2 p \<noteq> files s1 p \<longrightarrow>
            (\<exists>m \<in> set (page_graphics doc (ps + int idx) dir MIN_IMAGE_WIDTH MIN_IMAGE_HEIGHT). p = dir @ [m_filename m])"
    by blast
  have f2: "\<forall>p. length p \<noteq> Suc (length dir) \<longrightarrow> files s2 p = files s p"
  proof (intro allI impI)
    fix p :: path assume l: "length p \<noteq> Suc (length dir)"
    then have "files s2 p = files s1 p" using E(4) by force
    with t1 l show "files s2 p = files s p" by simp
  qed
  have ev: "\<forall>e \<in> set (concat (map (\<lambda>x. ExtractImage (snd x) # extract_error_log doc (ps + int idx) x)
                                        (enumerate_from 1 (get_images doc (ps + int idx - 1))))). \<forall>q. e \<noteq> Invoke q"
    by (auto simp: extract_error_log_def split: extract_result.splits)
  have "step2_body (Some doc) (Some dir) ps (idx, tp) (all, s) =
          (Inr (store_graphics doc dir all (ps + int idx)), s2)"
    using b E(1) by (simp add: step2_body_def Let_def SAVE_PAGE_IMAGES_def EXTRACT_EMBEDDED_IMAGES_def
        copy_from_temp_ok s1_def store_graphics_def)
  then show ?thesis
    using E(2,3) t1 f2 ev by auto
qed

lemma step2_loop_ok:
  assumes "\<forall>x \<in> set xs. temp_files s (snd x) \<noteq> None \<and> 1 \<le> ps + int (fst x) \<and>
             ps + int (fst x) \<le> page_count doc"
  shows "\<exists>s'. step2_loop (Some doc) (Some dir) ps xs (all, s) =
            (Inr (foldl (store_graphics doc dir) all (map (\<lambda>x. ps + int (fst x)) xs)), s') \<and>
          temp_files s' = temp_files s \<and>
          (\<forall>p. length p \<noteq> Suc (length dir) \<longrightarrow> files s' p = files s p) \<and>
          (\<exists>evs. trace s' = trace s @ evs \<and> (\<forall>e \<in> set evs. \<forall>q. e \<noteq> Invoke q))"
  using assms
proof (induction xs arbitrary: all s)
  case Nil
  then show ?case by simp
next
  case (Cons x xs)
  obtain idx tp where x: "x = (idx, tp)" by (cases x)
  from Cons.prems x have h: "temp_files s tp \<noteq> None" "1 \<le> ps + int idx" "ps + int idx \<le> page_count doc"
    by auto
  from step2_body_ok [OF h, of dir all] obtain s1 evs1 where
    B: "step2_body (Some doc) (Some dir) ps (idx, tp) (all, s) =
          (Inr (store_graphics doc dir all (ps + int idx)), s1)"
       "temp_files s1 = temp_files s"
       "\<forall>p. length p \<noteq> Suc (length dir) \<longrightarrow> files s1 p = files s p"
       "trace s1 = trace s @ evs1" "\<forall>e \<in> set evs1. \<forall>q. e \<noteq> Invoke q"
    by blast
  from Cons.prems B(2) have
    "\<forall>x \<in> set xs. temp_files s1 (snd x) \<noteq> None \<and> 1 \<le> ps + int (fst x) \<and>
             ps + int (fst x) \<le> page_count doc" by simp
  from Cons.IH [OF this, of "store_graphics doc dir all (ps + int idx)"] obtain s' evs where
    I: "step2_loop (Some doc) (Some dir) ps xs (store_graphics doc dir all (ps + int idx), s1) =
          (Inr (foldl (store_graphics doc dir) (store_graphics doc dir all (ps + int idx))
                  (map (\<lambda>x. ps + int (fst x)) xs)), s')"
       "temp_files s' = temp_files s1"
       "\<forall>p. length p \<noteq> Suc (length dir) \<longrightarrow> files s' p = files s1 p"
       "trace s' = trace s1 @ evs" "\<forall>e \<in> set evs. \<forall>q. e \<noteq> Invoke q"
    by blast
  have "trace s' = trace s @ (evs1 @ evs)" "\<forall>e \<in> set (evs1 @ evs). \<forall>q. e \<noteq> Invoke q"
    using B I by auto
  then have "\<exists>evs. trace s' = trace s @ evs \<and> (\<forall>e \<in> set evs. \<forall>q. e \<noteq> Invoke q)"
    by blast
  then show ?case
    using B I x by simp
qed

lemma step2_body_no_dir:
  "step2_body ie None ps x (all, s) = (Inr all, s)"
  by (cases x) (simp add: step2_body_def Let_def)

lemma step2_loop_no_dir:
  "step2_loop ie None ps xs (all, s) = (Inr all, s)"
  by (induction xs) (simp_all add: step2_body_no_dir)

lemma add_events_simps [simp]:
  "files (add_events evs s) = files s"
  "temp_files (add_events evs s) = temp_files s"
  "trace (add_events evs s) = trace s @ evs"
  by (simp_all add: add_events_def)

lemma attempts_list: "[1 ..< max_retries + 1] = [1, 2, 3]"
  by (simp add: max_retries_def upt_rec)

lemma retry_loop_outcome:
  assumes "retry_loop w p idx pn all dir [1 ..< max_retries + 1] (None, failed, s) = (md, failed', s')"
  shows "(\<exists>evs t. infer w (trace s @ evs) p = Inr t \<and>
            md = Some (accepted_text all dir pn t) \<and> failed' = failed \<and>
            s' = add_events (evs @ [Invoke p]) s \<and>
            (evs = [] \<or>
             (\<exists>e1. infer w (trace s) p = Inl e1 \<and> evs = failed_attempt p idx 1 e1) \<or>
             (\<exists>e1 e2. infer w (trace s) p = Inl e1 \<and>
                infer w (trace s @ failed_attempt p idx 1 e1) p = Inl e2 \<and>
                evs = failed_attempt p idx 1 e1 @ failed_attempt p idx 2 e2))) \<or>
         (\<exists>e1 e2 e3. infer w (trace s) p = Inl e1 \<and>
            infer w (trace s @ failed_attempt p idx 1 e1) p = Inl e2 \<and>
            infer w (trace s @ failed_attempt p idx 1 e1 @ failed_attempt p idx 2 e2) p = Inl e3 \<and>
            md = Some (error_section idx e3) \<and>
            failed' = failed @ [failure_record idx p e3] \<and>
            s' = add_events (failed_attempt p idx 1 e1 @ failed_attempt p idx 2 e2 @
                   [Invoke p, attempt_failed_log idx 3 e3, page_failed_log idx]) s)"
proof -
  from assms have assms: "retry_loop w p idx pn all dir [1, 2, 3] (None, failed, s) = (md, failed', s')"
    unfolding attempts_list .
  show ?thesis
proof (cases "infer w (trace s) p")
  case (Inr t)
  with assms have "md = Some (accepted_text all dir pn t) \<and> failed' = failed \<and> s' = add_events ([] @ [Invoke p]) s"
    by (simp add: attempt_body_def image_to_markdown_def accepted_text_def
        add_events_def emit_def)
  with Inr show ?thesis by force
next
  case e1: (Inl e1)
  let ?tr1 = "trace s @ failed_attempt p idx 1 e1"
  show ?thesis
  proof (cases "infer w ?tr1 p")
    case (Inr t)
    with assms e1 have "md = Some (accepted_text all dir pn t) \<and> failed' = failed \<and>
        s' = add_events (failed_attempt p idx 1 e1 @ [Invoke p]) s"
      by (simp add: attempt_body_def image_to_markdown_def accepted_text_def
          add_events_def emit_def failed_attempt_def attempt_failed_log_def max_retries_def Let_def)
    with Inr e1 show ?thesis by blast
  next
    case e2: (Inl e2)
    let ?tr2 = "trace s @ failed_attempt p idx 1 e1 @ failed_attempt p idx 2 e2"
    show ?thesis
    proof (cases "infer w ?tr2 p")
      case (Inr t)
      with assms e1 e2 have "md = Some (accepted_text all dir pn t) \<and> failed' = failed \<and>
          s' = add_events ((failed_attempt p idx 1 e1 @ failed_attempt p idx 2 e2) @ [Invoke p]) s"
        by (simp add: attempt_body_def image_to_markdown_def accepted_text_def
            add_events_def emit_def failed_attempt_def attempt_failed_log_def max_retries_def Let_def)
      moreover have "infer w (trace s @ (failed_attempt p idx 1 e1 @ failed_attempt p idx 2 e2)) p = Inr t"
        using Inr by simp
      ultimately show ?thesis using e1 e2 by blast
    next
      case e3: (Inl e3)
      with assms e1 e2 have "md = Some (error_section idx e3) \<and>
            failed' = failed @ [failure_record idx p e3] \<and>
            s' = add_events (failed_attempt p idx 1 e1 @ failed_attempt p idx 2 e2 @
                   [Invoke p, attempt_failed_log idx 3 e3, page_failed_log idx]) s"
        by (simp add: attempt_body_def image_to_markdown_def error_section_def
            failure_record_def page_failed_log_def
            add_events_def emit_def failed_attempt_def attempt_failed_log_def max_retries_def Let_def)
      with e1 e2 e3 show ?thesis by blast
    qed
  qed
qed
qed

lemma page_body_outcome:
  assumes "page_body w out_opt all dir ps (idx, p) (failed, s) = (failed', s')"
  shows "\<exists>md new_failed evs.
           page_outcome w all dir ps (idx, p) (trace s) (md, new_failed, evs) \<and>
           failed' = failed @ new_failed \<and>
           trace s' = trace s @ evs \<and> temp_files s' = temp_files s \<and>
           files s' =
             (case out_opt of
                Some out \<Rightarrow>
                  if md \<noteq> []
                  then (files s)(out \<mapsto> (case files s out of None \<Rightarrow> [] | Some cs \<Rightarrow> cs) @
                                       [Text (page_content idx md)])
                  else files s
              | None \<Rightarrow> files s)"
proof -
  obtain md0 failed0 sr where
    r: "retry_loop w p idx (ps + int idx - 1) all dir [1 ..< max_retries + 1] (None, failed, s) =
          (md0, failed0, sr)"
    by (metis prod_cases3)
  from retry_loop_outcome [OF r] obtain md new_failed evs where
    o: "md0 = Some md" "failed0 = failed @ new_failed" "sr = add_events evs s"
       "page_outcome w all dir ps (idx, p) (trace s) (md, new_failed, evs)"
    unfolding page_outcome_def by (elim disjE exE conjE) (simp, blast)+
  from assms r o(1) have
    s': "failed' = failed0"
        "s' = (case out_opt of Some out \<Rightarrow> if md \<noteq> [] then append_markdown_page out idx md sr else sr
               | None \<Rightarrow> sr)"
    by (auto simp: page_body_def Let_def split: option.splits if_splits)
  show ?thesis
    using o s' by (cases out_opt) (auto simp: append_markdown_page_def intro!: exI [of _ md])
qed

lemma fold_page_body_outcome:
  assumes "fold (page_body w (Some out) all dir ps) xs (failed, s) = (failed', s')"
    and "files s out = Some cs"
  shows "\<exists>outs. length outs = length xs \<and>
           failed' = failed @ concat (map (\<lambda>out. fst (snd out)) outs) \<and>
           trace s' = trace s @ concat (map (\<lambda>out. snd (snd out)) outs) \<and>
           temp_files s' = temp_files s \<and>
           files s' = (files s)(out \<mapsto> cs @ page_sections xs outs) \<and>
           (\<forall>i < length xs. \<exists>tr. page_outcome w all dir ps (xs ! i) tr (outs ! i))"
  using assms
proof (induction xs arbitrary: failed s cs)
  case Nil
  then show ?case by (simp add: page_sections_def map_upd_triv)
next
  case (Cons x xs)
  obtain idx p where x: "x = (idx, p)" by (cases x)
  obtain failed1 s1 where b: "page_body w (Some out) all dir ps (idx, p) (failed, s) = (failed1, s1)"
    by (cases "page_body w (Some out) all dir ps (idx, p) (failed, s)")
  from page_body_outcome [OF b] Cons.prems(2) obtain md new_failed evs where
    B: "page_outcome w all dir ps (idx, p) (trace s) (md, new_failed, evs)"
       "failed1 = failed @ new_failed" "trace s1 = trace s @ evs" "temp_files s1 = temp_files s"
       "files s1 = (if md \<noteq> [] then (files s)(out \<mapsto> cs @ [Text (page_content idx md)]) else files s)"
    by auto
  define cs1 where "cs1 = (if md \<noteq> [] then cs @ [Text (page_content idx md)] else cs)"
  have c1: "files s1 out = Some cs1" "files s1 = (files s)(out \<mapsto> cs1)"
    using B(5) Cons.prems(2) by (auto simp: cs1_def map_upd_triv)
  from Cons.prems(1) b x have f: "fold (page_body w (Some out) all dir ps) xs (failed1, s1) = (failed', s')"
    by simp
  from Cons.IH [OF f c1(1)] obtain outs where
    I: "length outs = length xs"
       "failed' = failed1 @ concat (map (\<lambda>out. fst (snd out)) outs)"
       "trace s' = trace s1 @ concat (map (\<lambda>out. snd (snd out)) outs)"
       "temp_files s' = temp_files s1"
       "files s' = (files s1)(out \<mapsto> cs1 @ page_sections xs outs)"
       "\<forall>i < length xs. \<exists>tr. page_outcome w all dir ps (xs ! i) tr (outs ! i)"
    by blast
  let ?outs = "(md, new_failed, evs) # outs"
  have sec: "cs @ page_sections (x # xs) ?outs = cs1 @ page_sections xs outs"
    by (simp add: page_sections_def cs1_def x)
  have nth: "\<forall>i < length (x # xs). \<exists>tr. page_outcome w all dir ps ((x # xs) ! i) tr (?outs ! i)"
  proof (intro allI impI)
    fix i assume "i < length (x # xs)"
    then show "\<exists>tr. page_outcome w all dir ps ((x # xs) ! i) tr (?outs ! i)"
      using B(1) I(6) x by (cases i) auto
  qed
  show ?case
  proof (intro exI [of _ ?outs] conjI)
    show "length ?outs = length (x # xs)" using I(1) by simp
    show "failed' = failed @ concat (map (\<lambda>out. fst (snd out)) ?outs)" using I(2) B(2) by simp
    show "trace s' = trace s @ concat (map (\<lambda>out. snd (snd out)) ?outs)" using I(3) B(3) by simp
    show "temp_files s' = temp_files s" using I(4) B(4) by simp
    show "files s' = (files s)(out \<mapsto> cs @ page_sections (x # xs) ?outs)"
      using I(5) c1(2) sec by simp
    show "\<forall>i < length (x # xs). \<exists>tr. page_outcome w all dir ps ((x # xs) ! i) tr (?outs ! i)"
      by (rule nth)
  qed
qed

lemma fold_page_body_no_output:
  assumes "fold (page_body w None all dir ps) xs (failed, s) = (failed', s')"
  shows "\<exists>outs. length outs = length xs \<and>
           failed' = failed @ concat (map (\<lambda>out. fst (snd out)) outs) \<and>
           trace s' = trace s @ concat (map (\<lambda>out. snd (snd out)) outs) \<and>
           temp_files s' = temp_files s \<and> files s' = files s \<and>
           (\<forall>i < length xs. \<exists>tr. page_outcome w all dir ps (xs ! i) tr (outs ! i))"
  using assms
proof (induction xs arbitrary: failed s)
  case Nil
  then show ?case by simp
next
  case (Cons x xs)
  obtain idx p where x: "x = (idx, p)" by (cases x)
  obtain failed1 s1 where b: "page_body w None all dir ps (idx, p) (failed, s) = (failed1, s1)"
    by (cases "page_body w None all dir ps (idx, p) (failed, s)")
  from page_body_outcome [OF b] obtain md new_failed evs where
    B: "page_outcome w all dir ps (idx, p) (trace s) (md, new_failed, evs)"
       "failed1 = failed @ new_failed" "trace s1 = trace s @ evs" "temp_files s1 = temp_files s"
       "files s1 = files s"
    by auto
  from Cons.prems(1) b x have f: "fold (page_body w None all dir ps) xs (failed1, s1) = (failed', s')"
    by simp
  from Cons.IH [OF f] obtain outs where
    I: "length outs = length xs"
       "failed' = failed1 @ concat (map (\<lambda>out. fst (snd out)) outs)"
       "trace s' = trace s1 @ concat (map (\<lambda>out. snd (snd out)) outs)"
       "temp_files s' = temp_files s1"
       "files s' = files s1"
       "\<forall>i < length xs. \<exists>tr. page_outcome w all dir ps (xs ! i) tr (outs ! i)"
    by blast
  let ?outs = "(md, new_failed, evs) # outs"
  have nth: "\<forall>i < length (x # xs). \<exists>tr. page_outcome w all dir ps ((x # xs) ! i) tr (?outs ! i)"
  proof (intro allI impI)
    fix i assume "i < length (x # xs)"
    then show "\<exists>tr. page_outcome w all dir ps ((x # xs) ! i) tr (?outs ! i)"
      using B(1) I(6) x by (cases i) auto
  qed
  show ?case
    using I B nth by (intro exI [of _ ?outs]) simp
qed

lemma rfind_Some: "rfind c xs = Some i \<Longrightarrow> i < length xs \<and> xs ! i = c"
  by (induction xs arbitrary: i) (auto split: option.splits if_splits)

lemma name_neq_stem_underscore: "name p \<noteq> stem p @ CHR ''_'' # t"
proof
  assume a: "name p = stem p @ CHR ''_'' # t"
  show False
  proof (cases "rfind (CHR ''.'') (name p)")
    case None
    with a show False by (simp add: stem_def)
  next
    case (Some i)
    then have i: "i < length (name p)" "name p ! i = CHR ''.''"
      using rfind_Some by blast+
    show False
    proof (cases "0 < i \<and> i + 1 < length (name p)")
      case True
      with Some have "stem p = take i (name p)" by (simp add: stem_def)
      with a have "name p ! i = (take i (name p) @ CHR ''_'' # t) ! i" by simp
      also have "\<dots> = CHR ''_''" using i(1) by (simp add: nth_append)
      finally show False using i(2) by simp
    next
      case False
      with Some have "stem p = name p" by (auto simp: stem_def)
      with a show False by simp
    qed
  qed
qed

lemma out_neq_sibling: "out \<noteq> parent out @ [stem out @ CHR ''_'' # t]"
proof
  assume a: "out = parent out @ [stem out @ CHR ''_'' # t]"
  then have "out \<noteq> []" by auto
  then have "name out = last out" by (simp add: name_def)
  also have "last out = stem out @ CHR ''_'' # t"
    by (subst a) simp
  finally show False using name_neq_stem_underscore by blast
qed

lemma out_neq_failed_pages_file: "out \<noteq> failed_pages_file out"
  using out_neq_sibling [of out "''failed_pages.json''"] by (simp add: failed_pages_file_def)

lemma out_neq_metadata_file: "out \<noteq> metadata_file out"
  using out_neq_sibling [of out "''images_metadata.json''"] by (simp add: metadata_file_def)

lemma failed_pages_file_neq_metadata_file: "failed_pages_file out \<noteq> metadata_file out"
  by (simp add: failed_pages_file_def metadata_file_def)

lemma length_images_dir_of: "length (images_dir_of out) = Suc (length (parent out))"
  by (simp add: images_dir_of_def)

lemma length_ledgers:
  "length (failed_pages_file out) = Suc (length (parent out))"
  "length (metadata_file out) = Suc (length (parent out))"
  by (simp_all add: failed_pages_file_def metadata_file_def)

lemma length_out_le: "length out \<le> Suc (length (parent out))"
  by (simp add: parent_def)

lemma step4_result:
  "temp_files (step4 w (Some out) document_name failed all s) = temp_files s"
  "trace (step4 w (Some out) document_name failed all s) = trace s"
  "files (step4 w (Some out) document_name failed all s) =
     (\<lambda>p. if p = metadata_file out \<and> all \<noteq> []
          then Some [Json (metadata_json document_name (isoformat_now w) all)]
          else if p = failed_pages_file out \<and> failed \<noteq> []
          then Some [Json (JArr (map failure_json failed))]
          else files s p)"
  by (auto simp: step4_def save_image_metadata_def SAVE_IMAGE_METADATA_JSON_def Let_def
      failed_pages_file_def metadata_file_def)

lemma rmtree_simps [simp]:
  "files (rmtree td s) = files s" "trace (rmtree td s) = trace s"
  "temp_files (rmtree td s) = (\<lambda>p. if prefix td p then None else temp_files s p)"
  by (simp_all add: rmtree_def)

lemma update_fresh: "k \<notin> fst ` set al \<Longrightarrow> AList.update k v al = al @ [(k, v)]"
  by (induction al) auto

lemma foldl_store_graphics:
  "\<forall>k \<in> fst ` set all. \<forall>p \<in> set pages. k < p \<Longrightarrow> sorted_wrt (<) pages \<Longrightarrow>
     foldl (store_graphics doc dir) all pages = all @ pages_with_graphics doc dir pages"
proof (induction pages arbitrary: all)
  case Nil
  then show ?case by (simp add: pages_with_graphics_def)
next
  case (Cons p pages)
  have fresh: "p \<notin> fst ` set all" using Cons.prems(1) by auto
  let ?g = "page_graphics doc p dir MIN_IMAGE_WIDTH MIN_IMAGE_HEIGHT"
  have st: "store_graphics doc dir all p = all @ (if ?g \<noteq> [] then [(p, ?g)] else [])"
    using fresh by (simp add: store_graphics_def Let_def update_fresh)
  have k: "\<forall>k \<in> fst ` set (store_graphics doc dir all p). \<forall>q \<in> set pages. k < q"
    using Cons.prems by (auto simp: st)
  have s: "sorted_wrt (<) pages" using Cons.prems(2) by simp
  show ?case
    using Cons.IH [OF k s] by (simp add: st pages_with_graphics_def)
qed

lemma map_add_int_upt: "map (\<lambda>k. i + int k) [0 ..< n] = [i..i + int n - 1]"
proof (induction n)
  case 0
  then show ?case by simp
next
  case (Suc n)
  have "[i..i + int (Suc n) - 1] = [i..i + int n - 1] @ [i + int n]"
    using upto_rec2 [of i "i + int n"] by simp
  with Suc show ?case by simp
qed

lemma enumerate_from_nth:
  "i < length xs \<Longrightarrow> enumerate_from k xs ! i = (k + i, xs ! i)"
  by (simp add: enumerate_from_def)

lemma length_enumerate_from [simp]: "length (enumerate_from k xs) = length xs"
  by (simp add: enumerate_from_def)

lemma map_fst_enumerate_from: "map fst (enumerate_from k xs) = [k ..< k + length xs]"
  by (simp add: enumerate_from_def)

lemma map_snd_enumerate_from: "map snd (enumerate_from k xs) = xs"
  by (simp add: enumerate_from_def)

lemma convert_run:
  fixes out :: path and w :: world and d :: pdf and fp lp :: int
  assumes v: "valid_run w pdf_path dpi first_page last_page d fp lp"
  defines "n \<equiv> nat (lp - fp + 1)"
    and "image_paths \<equiv> map (raster_path (mkdtemp w) IMAGE_FORMAT) [fp..lp]"
    and "dir \<equiv> images_dir_of out"
  defines "all \<equiv> pages_with_graphics (fitz_open d) dir [fp..lp]"
  obtains outs and s2 :: sys and evs2 s' where
    "convert_pdf_to_markdown w pdf_path (Some out) dpi first_page last_page s =
       (Inr \<lparr>successful = n - length (concat (map (\<lambda>out. fst (snd out)) outs)), total = n\<rparr>, s')"
    "length outs = n"
    "\<forall>i < n. \<exists>tr. page_outcome w all (Some dir) fp (Suc i, image_paths ! i) tr (outs ! i)"
    "\<forall>p. length p \<noteq> length (parent out) + 2 \<longrightarrow> files s2 p = files s p"
    "files s' =
       (\<lambda>p. if p = metadata_file out \<and> all \<noteq> []
            then Some [Json (metadata_json (stem pdf_path) (isoformat_now w) all)]
            else if p = failed_pages_file out \<and> concat (map (\<lambda>out. fst (snd out)) outs) \<noteq> []
            then Some [Json (JArr (map failure_json (concat (map (\<lambda>out. fst (snd out)) outs))))]
            else if p = out
            then Some (Text (markdown_header (stem pdf_path) (strftime_now w) n) #
                       page_sections (enumerate_from 1 image_paths) outs)
            else files s2 p)"
    "trace s' = trace s @ map Rasterize [fp..lp] @ evs2 @ concat (map (\<lambda>out. snd (snd out)) outs)"
    "\<forall>e \<in> set evs2. \<forall>q. e \<noteq> Invoke q"
proof -
  from v have pdf: "pdf_at w pdf_path = Some d"
    and fp: "fp = (case first_page of None \<Rightarrow> 1 | Some f \<Rightarrow> f)"
    and lp: "lp = (case last_page of None \<Rightarrow> pdfinfo_pages d | Some l \<Rightarrow> l)"
    and range: "1 \<le> fp" "fp \<le> lp" "lp \<le> pdfinfo_pages d"
    and raster: "\<forall>p \<in> {fp..lp}. \<exists>img. convert_from_path d dpi p = Inr img"
    and fitz: "lp \<le> page_count (fitz_open d)"
    by (simp_all add: valid_run_def)
  let ?doc = "fitz_open d"
  \<comment> \<open>Step 1\<close>
  from pdf_to_images_ok [OF fp lp range raster, of w IMAGE_FORMAT s] obtain s1 where
    S1: "pdf_to_images w d dpi IMAGE_FORMAT first_page last_page s = (Inr image_paths, s1)"
        "files s1 = files s" "trace s1 = trace s @ map Rasterize [fp..lp]"
        "\<forall>p \<in> {fp..lp}. temp_files s1 (raster_path (mkdtemp w) IMAGE_FORMAT p) \<noteq> None"
    unfolding image_paths_def by blast
  have len: "length image_paths = n"
    by (simp add: image_paths_def n_def)
  have n_pos: "0 < n" using range by (simp add: n_def)
  have lp_eq: "fp + int n - 1 = lp" using range by (simp add: n_def)
  from range have "[fp..lp] = fp # [fp + 1..lp]" by (simp add: upto_rec1)
  then have ip: "image_paths = raster_path (mkdtemp w) IMAGE_FORMAT fp #
      map (raster_path (mkdtemp w) IMAGE_FORMAT) [fp + 1..lp]"
    by (simp add: image_paths_def)
  have par: "parent (raster_path (mkdtemp w) IMAGE_FORMAT fp) = mkdtemp w"
    by (simp add: parent_def raster_path_def)
  have ps: "(case first_page of None \<Rightarrow> 1 | Some f \<Rightarrow> if f \<noteq> 0 then f else 1) = fp"
    using fp range(1) by (auto split: option.splits)
  \<comment> \<open>Step 2\<close>
  have pages: "map (\<lambda>x. fp + int (fst x)) (enumerate_from 0 image_paths) = [fp..lp]"
  proof -
    have "map (\<lambda>x. fp + int (fst x)) (enumerate_from 0 image_paths) =
            map (\<lambda>k. fp + int k) (map fst (enumerate_from 0 image_paths))"
      by simp
    also have "\<dots> = map (\<lambda>k. fp + int k) [0 ..< n]"
      by (simp only: map_fst_enumerate_from len) simp
    also have "\<dots> = [fp..lp]" by (simp add: map_add_int_upt lp_eq)
    finally show ?thesis .
  qed
  have cond: "\<forall>x \<in> set (enumerate_from 0 image_paths).
      temp_files s1 (snd x) \<noteq> None \<and> 1 \<le> fp + int (fst x) \<and> fp + int (fst x) \<le> page_count ?doc"
  proof
    fix x assume x: "x \<in> set (enumerate_from 0 image_paths)"
    then have "snd x \<in> set (map snd (enumerate_from 0 image_paths))" by force
    then have "snd x \<in> set image_paths" by (simp only: map_snd_enumerate_from)
    then have t: "temp_files s1 (snd x) \<noteq> None" using S1(4) by (auto simp: image_paths_def)
    from x have "fp + int (fst x) \<in> set (map (\<lambda>x. fp + int (fst x)) (enumerate_from 0 image_paths))"
      by force
    then have "fp + int (fst x) \<in> {fp..lp}" by (simp only: pages set_upto)
    with t range fitz show "temp_files s1 (snd x) \<noteq> None \<and> 1 \<le> fp + int (fst x) \<and>
        fp + int (fst x) \<le> page_count ?doc" by auto
  qed
  from step2_loop_ok [OF cond, of dir "[]"] obtain s2 evs2 where
    S2: "step2_loop (Some ?doc) (Some dir) fp (enumerate_from 0 image_paths) ([], s1) =
           (Inr (foldl (store_graphics ?doc dir) [] [fp..lp]), s2)"
        "temp_files s2 = temp_files s1"
        "\<forall>p. length p \<noteq> Suc (length dir) \<longrightarrow> files s2 p = files s1 p"
        "trace s2 = trace s1 @ evs2" "\<forall>e \<in> set evs2. \<forall>q. e \<noteq> Invoke q"
    unfolding pages by blast
  have all: "foldl (store_graphics ?doc dir) [] [fp..lp] = all"
    using foldl_store_graphics [of "[]" "[fp..lp]" ?doc dir] by (simp add: all_def)
  have frame2: "\<forall>p. length p \<noteq> length (parent out) + 2 \<longrightarrow> files s2 p = files s p"
    using S2(3) S1(2) by (simp add: dir_def length_images_dir_of)
  \<comment> \<open>Step 3\<close>
  define s3 where "s3 = write_markdown_header w out (stem pdf_path) (length image_paths) s2"
  have s3: "files s3 out = Some [Text (markdown_header (stem pdf_path) (strftime_now w) n)]"
    "files s3 = (files s2)(out \<mapsto> [Text (markdown_header (stem pdf_path) (strftime_now w) n)])"
    "trace s3 = trace s2" "temp_files s3 = temp_files s2"
    by (simp_all add: s3_def write_markdown_header_def len)
  obtain failed s4 where
    f: "fold (page_body w (Some out) all (Some dir) fp) (enumerate_from 1 image_paths) ([], s3) =
          (failed, s4)"
    by (cases "fold (page_body w (Some out) all (Some dir) fp) (enumerate_from 1 image_paths) ([], s3)")
  from fold_page_body_outcome [OF f s3(1)] obtain outs where
    S3: "length outs = length (enumerate_from 1 image_paths)"
        "failed = [] @ concat (map (\<lambda>out. fst (snd out)) outs)"
        "trace s4 = trace s3 @ concat (map (\<lambda>out. snd (snd out)) outs)"
        "temp_files s4 = temp_files s3"
        "files s4 = (files s3)(out \<mapsto> [Text (markdown_header (stem pdf_path) (strftime_now w) n)] @
                                       page_sections (enumerate_from 1 image_paths) outs)"
        "\<forall>i < length (enumerate_from 1 image_paths).
            \<exists>tr. page_outcome w all (Some dir) fp (enumerate_from 1 image_paths ! i) tr (outs ! i)"
    by blast
  have outs_len: "length outs = n" using S3(1) len by simp
  have outcomes: "\<forall>i < n. \<exists>tr. page_outcome w all (Some dir) fp (Suc i, image_paths ! i) tr (outs ! i)"
  proof (intro allI impI)
    fix i assume i: "i < n"
    then have "enumerate_from 1 image_paths ! i = (Suc i, image_paths ! i)"
      using len by (simp add: enumerate_from_nth)
    with S3(6) i len show "\<exists>tr. page_outcome w all (Some dir) fp (Suc i, image_paths ! i) tr (outs ! i)"
      by force
  qed
  \<comment> \<open>Step 4 and the cleanup\<close>
  define s5 where "s5 = step4 w (Some out) (stem pdf_path) failed all s4"
  define s' where "s' = rmtree (mkdtemp w) s5"
  have steps: "steps_2_to_4 w pdf_path (Some out) first_page (Some ?doc) (Some dir) image_paths s1 =
      (Inr \<lparr>successful = n - length failed, total = n\<rparr>, s5)"
    using S2(1) f by (simp add: steps_2_to_4_def ps all s3_def s5_def len Let_def)
  have dir_eq: "parent out @ [stem out @ ''_'' @ IMAGES_SUBDIR] = dir"
    by (simp add: dir_def images_dir_of_def)
  have conv: "convert_pdf_to_markdown w pdf_path (Some out) dpi first_page last_page s =
      (Inr \<lparr>successful = n - length failed, total = n\<rparr>, s')"
    unfolding convert_pdf_to_markdown_def Let_def SAVE_PAGE_IMAGES_def EXTRACT_EMBEDDED_IMAGES_def
    using pdf S1(1) steps
    by (simp only: dir_eq option.case if_True simp_thms prod.case sum.case) (simp add: ip par s'_def)
  have files: "files s' =
       (\<lambda>p. if p = metadata_file out \<and> all \<noteq> []
            then Some [Json (metadata_json (stem pdf_path) (isoformat_now w) all)]
            else if p = failed_pages_file out \<and> failed \<noteq> []
            then Some [Json (JArr (map failure_json failed))]
            else if p = out
            then Some (Text (markdown_header (stem pdf_path) (strftime_now w) n) #
                       page_sections (enumerate_from 1 image_paths) outs)
            else files s2 p)"
    by (rule ext) (auto simp: s'_def s5_def step4_result S3(5) s3(2))
  have tr: "trace s' = trace s @ map Rasterize [fp..lp] @ evs2 @ concat (map (\<lambda>out. snd (snd out)) outs)"
    by (simp add: s'_def s5_def step4_result S3(3) s3(3) S2(4) S1(3))
  have failed_eq: "failed = concat (map (\<lambda>out. fst (snd out)) outs)"
    using S3(2) by simp
  show thesis
    using that [of outs s' s2 evs2] conv outs_len outcomes frame2 files tr S2(5)
    unfolding failed_eq by simp
qed

lemma replace_first_nonempty: "s \<noteq> [] \<Longrightarrow> new \<noteq> [] \<Longrightarrow> replace_first old new s \<noteq> []"
  by (cases s) auto

lemma replace_one_nonempty: "t \<noteq> [] \<Longrightarrow> replace_one d pn t m \<noteq> []"
  by (auto simp: replace_one_def Let_def replace_first_nonempty split: option.splits prod.splits)

lemma foldl_replace_one_nonempty: "t \<noteq> [] \<Longrightarrow> foldl (replace_one d pn) t ms \<noteq> []"
  by (induction ms arbitrary: t) (simp_all add: replace_one_nonempty)

lemma accepted_text_empty: "accepted_text all dir pn t = [] \<Longrightarrow> t = []"
proof (rule ccontr)
  assume a: "accepted_text all dir pn t = []" and t: "t \<noteq> []"
  have "replace_image_placeholders_single_page t images pn dn \<noteq> []" for images dn
    using t by (auto simp: replace_image_placeholders_single_page_def foldl_replace_one_nonempty
        split: option.splits)
  with t have "accepted_text all dir pn t \<noteq> []"
    by (auto simp: accepted_text_def split: option.splits)
  with a show False by simp
qed

lemma page_outcome_invoked:
  "page_outcome w all dir ps (idx, p) tr (md, new_failed, evs) \<Longrightarrow> Invoke p \<in> set evs"
  by (auto simp: page_outcome_def)

lemma page_outcome_empty:
  assumes "page_outcome w all dir ps (idx, p) tr (md, new_failed, evs)" "md = []"
  shows "\<exists>tr. infer w tr p = Inr []"
proof -
  have ne: "error_section idx e \<noteq> []" for e
    by (simp add: error_section_def)
  from assms ne obtain tr' t where "infer w tr' p = Inr t" "accepted_text all dir (ps + int idx - 1) t = []"
    unfolding page_outcome_def by (simp only: prod.case) metis
  then show ?thesis using accepted_text_empty by blast
qed

lemma page_outcome_failed:
  "page_outcome w all dir ps (idx, p) tr (md, new_failed, evs) \<Longrightarrow>
     new_failed = [] \<or>
     (\<exists>e tr. infer w tr p = Inl e \<and> new_failed = [failure_record idx p e] \<and> md = error_section idx e)"
  unfolding page_outcome_def by (simp only: prod.case) blast

lemma page_outcome_always_fails:
  "page_outcome w all dir ps (idx, p) tr (md, new_failed, evs) \<Longrightarrow> \<forall>tr. \<exists>e. infer w tr p = Inl e \<Longrightarrow>
     \<exists>e tr. infer w tr p = Inl e \<and> new_failed = [failure_record idx p e] \<and> md = error_section idx e"
  unfolding page_outcome_def
  by (simp only: prod.case) (metis Inl_Inr_False)

lemma page_outcome_never_fails:
  "page_outcome w all dir ps (idx, p) tr (md, new_failed, evs) \<Longrightarrow> \<forall>tr. \<exists>t. infer w tr p = Inr t \<Longrightarrow>
     new_failed = []"
  unfolding page_outcome_def
  by (simp only: prod.case) (metis Inl_Inr_False)

lemma enumerate_from_Cons: "enumerate_from k (x # xs) = (k, x) # enumerate_from (Suc k) xs"
  by (simp add: enumerate_from_def upt_rec)

lemma enumerate_from_Nil [simp]: "enumerate_from k [] = []"
  by (simp add: enumerate_from_def)

lemma page_sections_enumerate:
  "length ps = length outs \<Longrightarrow>
     page_sections (enumerate_from k ps) outs =
       map (\<lambda>(idx, md). Text (page_content idx md))
         (filter (\<lambda>(idx, md). md \<noteq> []) (enumerate_from k (map fst outs)))"
proof (induction outs arbitrary: ps k)
  case Nil
  then show ?case by (simp add: page_sections_def)
next
  case (Cons out outs)
  then obtain p ps' where ps: "ps = p # ps'" "length ps' = length outs"
    by (cases ps) auto
  from Cons.IH [OF ps(2), of "Suc k"] show ?case
    by (simp add: ps enumerate_from_Cons page_sections_def)
qed

lemma page_sections_sections:
  "length ps = length outs \<Longrightarrow> page_sections (enumerate_from 1 ps) outs = sections (map fst outs)"
  by (simp add: page_sections_enumerate sections_def)

lemma sections_all_nonempty:
  "[] \<notin> set mds \<Longrightarrow>
     sections mds = map (\<lambda>(idx, md). Text (page_content idx md)) (enumerate_from 1 mds)"
proof -
  assume a: "[] \<notin> set mds"
  have "filter (\<lambda>(idx, md). md \<noteq> []) (enumerate_from 1 mds) = enumerate_from 1 mds"
  proof (rule filter_True)
    show "\<forall>x \<in> set (enumerate_from 1 mds). case x of (idx, md) \<Rightarrow> md \<noteq> []"
    proof
      fix x assume "x \<in> set (enumerate_from 1 mds)"
      then have "snd x \<in> set (map snd (enumerate_from 1 mds))" by force
      then have "snd x \<in> set mds" by (simp only: map_snd_enumerate_from)
      with a show "case x of (idx, md) \<Rightarrow> md \<noteq> []" by (cases x) auto
    qed
  qed
  then show ?thesis by (simp add: sections_def)
qed

lemma length_sections_le: "length (sections mds) \<le> length mds"
  by (simp add: sections_def) (metis length_enumerate_from length_filter_le)

lemma nth_raster_paths:
  "i < nat (lp - fp + 1) \<Longrightarrow> map (raster_path td fmt) [fp..lp] ! i = raster_path td fmt (fp + int i)"
  by (simp add: nth_map)

lemma header_not_in_sections: "Text (markdown_header a b c) \<notin> set (sections mds)"
  by (auto simp: sections_def markdown_header_def page_content_def)

section \<open>The sections of the output\<close>

lemma convert_output_file:
  assumes "valid_run w pdf_path dpi first_page last_page d fp lp"
  shows "\<exists>r s' mds.
     convert_pdf_to_markdown w pdf_path (Some out) dpi first_page last_page s = (Inr r, s') \<and>
     total r = nat (lp - fp + 1) \<and> length mds = nat (lp - fp + 1) \<and>
     files s' out =
       Some (Text (markdown_header (stem pdf_path) (strftime_now w) (nat (lp - fp + 1))) # sections mds) \<and>
     (\<forall>i < nat (lp - fp + 1).
        (mds ! i = [] \<longrightarrow>
           (\<exists>tr. infer w tr (raster_path (mkdtemp w) IMAGE_FORMAT (fp + int i)) = Inr [])) \<and>
        ((\<forall>tr. \<exists>e. infer w tr (raster_path (mkdtemp w) IMAGE_FORMAT (fp + int i)) = Inl e) \<longrightarrow>
           (\<exists>e. mds ! i = error_section (Suc i) e))) \<and>
     ((\<forall>tr p. infer w tr p \<noteq> Inr []) \<longrightarrow>
        sections mds = map (\<lambda>(idx, md). Text (page_content idx md)) (enumerate_from 1 mds))"
proof -
  let ?n = "nat (lp - fp + 1)"
  let ?ips = "map (raster_path (mkdtemp w) IMAGE_FORMAT) [fp..lp]"
  let ?all = "pages_with_graphics (fitz_open d) (images_dir_of out) [fp..lp]"
  obtain outs and s2 :: sys and evs2 s' where
    R: "convert_pdf_to_markdown w pdf_path (Some out) dpi first_page last_page s =
       (Inr \<lparr>successful = ?n - length (concat (map (\<lambda>out. fst (snd out)) outs)), total = ?n\<rparr>, s')"
    "length outs = ?n"
    "\<forall>i < ?n. \<exists>tr. page_outcome w ?all (Some (images_dir_of out)) fp (Suc i, ?ips ! i) tr (outs ! i)"
    "\<forall>p. length p \<noteq> length (parent out) + 2 \<longrightarrow> files s2 p = files s p"
    "files s' =
       (\<lambda>p. if p = metadata_file out \<and> ?all \<noteq> []
            then Some [Json (metadata_json (stem pdf_path) (isoformat_now w) ?all)]
            else if p = failed_pages_file out \<and> concat (map (\<lambda>out. fst (snd out)) outs) \<noteq> []
            then Some [Json (JArr (map failure_json (concat (map (\<lambda>out. fst (snd out)) outs))))]
            else if p = out
            then Some (Text (markdown_header (stem pdf_path) (strftime_now w) ?n) #
                       page_sections (enumerate_from 1 ?ips) outs)
            else files s2 p)"
    "trace s' = trace s @ map Rasterize [fp..lp] @ evs2 @ concat (map (\<lambda>out. snd (snd out)) outs)"
    "\<forall>e \<in> set evs2. \<forall>q. e \<noteq> Invoke q"
    by (rule convert_run [OF assms])
  define mds where "mds = map fst outs"
  have len: "length mds = ?n" using R(2) by (simp add: mds_def)
  have "length ?ips = length outs" using R(2) by simp
  then have sec: "page_sections (enumerate_from 1 ?ips) outs = sections mds"
    unfolding mds_def by (rule page_sections_sections)
  have fl: "files s' out = Some (Text (markdown_header (stem pdf_path) (strftime_now w) ?n) # sections mds)"
    using out_neq_metadata_file [of out] out_neq_failed_pages_file [of out] sec
    by (simp add: R(5))
  have pages: "\<forall>i < ?n.
        (mds ! i = [] \<longrightarrow>
           (\<exists>tr. infer w tr (raster_path (mkdtemp w) IMAGE_FORMAT (fp + int i)) = Inr [])) \<and>
        ((\<forall>tr. \<exists>e. infer w tr (raster_path (mkdtemp w) IMAGE_FORMAT (fp + int i)) = Inl e) \<longrightarrow>
           (\<exists>e. mds ! i = error_section (Suc i) e))"
  proof (intro allI impI)
    fix i assume i: "i < ?n"
    let ?p = "raster_path (mkdtemp w) IMAGE_FORMAT (fp + int i)"
    have p: "?ips ! i = ?p" using i by (rule nth_raster_paths)
    obtain md nf evs where o: "outs ! i = (md, nf, evs)" by (cases "outs ! i")
    from R(3) i p o obtain tr where
      po: "page_outcome w ?all (Some (images_dir_of out)) fp (Suc i, ?p) tr (md, nf, evs)"
      by force
    have md: "mds ! i = md" using i R(2) o by (simp add: mds_def)
    show "(mds ! i = [] \<longrightarrow> (\<exists>tr. infer w tr ?p = Inr [])) \<and>
        ((\<forall>tr. \<exists>e. infer w tr ?p = Inl e) \<longrightarrow> (\<exists>e. mds ! i = error_section (Suc i) e))"
    proof (intro conjI impI)
      assume "mds ! i = []"
      with md have "md = []" by simp
      then show "\<exists>tr. infer w tr ?p = Inr []" by (rule page_outcome_empty [OF po])
    next
      assume "\<forall>tr. \<exists>e. infer w tr ?p = Inl e"
      from page_outcome_always_fails [OF po this] md
      show "\<exists>e. mds ! i = error_section (Suc i) e" by auto
    qed
  qed
  have all_ne: "(\<forall>tr p. infer w tr p \<noteq> Inr []) \<longrightarrow>
        sections mds = map (\<lambda>(idx, md). Text (page_content idx md)) (enumerate_from 1 mds)"
  proof
    assume a: "\<forall>tr p. infer w tr p \<noteq> Inr []"
    have "[] \<notin> set mds"
    proof
      assume "[] \<in> set mds"
      then obtain i where "i < length mds" "mds ! i = []" by (auto simp: in_set_conv_nth)
      with pages len a show False by auto
    qed
    then show "sections mds = map (\<lambda>(idx, md). Text (page_content idx md)) (enumerate_from 1 mds)"
      by (rule sections_all_nonempty)
  qed
  show ?thesis
    using R(1) len fl pages all_ne by (intro exI [of _ mds] exI conjI) auto
qed

text \<open>
  C1. Every page of the range is to get its section, so that the header announces as many
  pages as the output has sections. The code misses this for a page whose text is empty. The
  comment on the append reads \<^verbatim>\<open>Append to file immediately (even if failed with error message)\<close>,
  and \<^verbatim>\<open>_combine_markdown_pages\<close> writes a section for every page; but
  \<^verbatim>\<open>if output_path_obj and page_markdown\<close> guards the append, and the empty string is
  falsy. In the blank world the inference service returns the empty string for both pages of
  the sample document: the run counts both pages as successful, the header announces two
  pages, and the output is the header and nothing else.
\<close>

theorem empty_page_text_gets_no_section:
  "fst (convert_pdf_to_markdown blank_world sample_pdf_path (Some sample_output_path) 450 None None
          empty_sys) = Inr \<lparr>successful = 2, total = 2\<rparr> \<and>
   files (snd (convert_pdf_to_markdown blank_world sample_pdf_path (Some sample_output_path) 450 None
                 None empty_sys)) sample_output_path =
     Some [Text (markdown_header ''sample'' ''2025-01-01 00:00:00'' 2)]"
  by code_simp

lemma sample_valid_run: "valid_run sample_world sample_pdf_path 450 None None sample_pdf 1 2"
  by (simp add: valid_run_def sample_world_def sample_pdf_def sample_document_def)

section \<open>The retry loop\<close>

lemma retry_loop_exhausted:
  assumes "infer w (trace s) p = Inl e1"
    and "infer w (trace s @ failed_attempt p idx 1 e1) p = Inl e2"
    and "infer w (trace s @ failed_attempt p idx 1 e1 @ failed_attempt p idx 2 e2) p = Inl e3"
  shows "retry_loop w p idx pn all dir [1 ..< max_retries + 1] (None, failed, s) =
           (Some (error_section idx e3), failed @ [failure_record idx p e3],
            add_events (failed_attempt p idx 1 e1 @ failed_attempt p idx 2 e2 @
                   [Invoke p, attempt_failed_log idx 3 e3, page_failed_log idx]) s)"
proof -
  obtain md failed' s' where
    r: "retry_loop w p idx pn all dir [1 ..< max_retries + 1] (None, failed, s) = (md, failed', s')"
    by (metis prod_cases3)
  from retry_loop_outcome [OF r] assms show ?thesis
    unfolding r by auto
qed

text \<open>
  C3. If the three inference calls for a page all raise, with the errors \<open>e1\<close>, \<open>e2\<close> and
  \<open>e3\<close>, then the page makes exactly \<open>max_retries = 3\<close> calls; after the failed attempt
  \<open>k < max_retries\<close> it sleeps for \<open>retry_delay * 2 ^ (k - 1)\<close> seconds, with
  \<open>retry_delay = 2\<close>, and it does not sleep after the last attempt; then it adds exactly one
  failure record, for this page and with the last error, to \<^verbatim>\<open>failed_pages\<close>.
\<close>

theorem retry_cap_respected:
  assumes "infer w (trace s) image_path = Inl e1"
    and "infer w (trace s @ failed_attempt image_path idx 1 e1) image_path = Inl e2"
    and "infer w (trace s @ failed_attempt image_path idx 1 e1 @ failed_attempt image_path idx 2 e2)
           image_path = Inl e3"
  shows "fst (page_body w output_path_obj all_extracted_images images_dir page_start (idx, image_path)
                (failed_pages, s)) = failed_pages @ [failure_record idx image_path e3] \<and>
         trace (snd (page_body w output_path_obj all_extracted_images images_dir page_start
                       (idx, image_path) (failed_pages, s))) =
           trace s @
             [Invoke image_path, attempt_failed_log idx 1 e1, Sleep (retry_delay * 2 ^ (1 - 1)),
              Invoke image_path, attempt_failed_log idx 2 e2, Sleep (retry_delay * 2 ^ (2 - 1)),
              Invoke image_path, attempt_failed_log idx 3 e3, page_failed_log idx] \<and>
         max_retries = 3 \<and> retry_delay = 2"
proof -
  have ne: "error_section idx e3 \<noteq> []" by (simp add: error_section_def)
  have "page_body w output_path_obj all_extracted_images images_dir page_start (idx, image_path)
          (failed_pages, s) =
        (failed_pages @ [failure_record idx image_path e3],
         (case output_path_obj of
            Some out \<Rightarrow> append_markdown_page out idx (error_section idx e3)
            | None \<Rightarrow> (\<lambda>s. s))
           (add_events (failed_attempt image_path idx 1 e1 @ failed_attempt image_path idx 2 e2 @
                   [Invoke image_path, attempt_failed_log idx 3 e3, page_failed_log idx]) s))"
    unfolding page_body_def Let_def prod.case retry_loop_exhausted [OF assms]
    using ne by (simp split: option.splits)
  then show ?thesis
    by (simp add: failed_attempt_def append_markdown_page_def max_retries_def retry_delay_def
        split: option.splits)
qed

theorem retry_cap_respected_witness:
  "fst (page_body sample_world (Some sample_output_path) [] None 1 (2, page2_image) ([], empty_sys)) =
     [failure_record 2 page2_image (Exception ''throttled'')] \<and>
   trace (snd (page_body sample_world (Some sample_output_path) [] None 1 (2, page2_image)
                 ([], empty_sys))) =
     [Invoke page2_image, LogError ''Failed to process page 2 (attempt 1/3): throttled'', Sleep 2,
      Invoke page2_image, LogError ''Failed to process page 2 (attempt 2/3): throttled'', Sleep 4,
      Invoke page2_image, LogError ''Failed to process page 2 (attempt 3/3): throttled'',
      LogError ''Page 2 failed after 3 attempts - skipping'']"
proof -
  have h: "infer sample_world tr page2_image = Inl (Exception ''throttled'')" for tr
    by (simp add: sample_world_def page2_image_def)
  have n2: "show_nat 2 = ''2''" "show_nat (Suc 0) = ''1''" "show_nat 3 = ''3''" by code_simp+
  from retry_cap_respected [where w = sample_world and s = empty_sys and image_path = page2_image
      and idx = 2 and output_path_obj = "Some sample_output_path" and all_extracted_images = "[]"
      and images_dir = None and page_start = 1 and failed_pages = "[]", OF h h h]
  show ?thesis
    by (simp add: empty_sys_def attempt_failed_log_def page_failed_log_def max_retries_def
        retry_delay_def n2)
qed

section \<open>Failure records and the failure ledger\<close>

lemma fold_page_body_prefix:
  "fold (page_body w output_path_obj all dir ps) xs (failed, s) = (failed', s') \<Longrightarrow>
     prefix failed failed'"
proof (induction xs arbitrary: failed s)
  case Nil
  then show ?case by simp
next
  case (Cons x xs)
  obtain idx p where x: "x = (idx, p)" by (cases x)
  obtain failed1 s1 where b: "page_body w output_path_obj all dir ps (idx, p) (failed, s) = (failed1, s1)"
    by (cases "page_body w output_path_obj all dir ps (idx, p) (failed, s)")
  from page_body_outcome [OF b] have "prefix failed failed1" by auto
  moreover from Cons.prems b x have "fold (page_body w output_path_obj all dir ps) xs (failed1, s1) = (failed', s')"
    by simp
  then have "prefix failed1 failed'" by (rule Cons.IH)
  ultimately show ?case by (rule prefix_order.trans)
qed

lemma page_body_record:
  assumes "page_body w output_path_obj all dir ps (idx, p) (failed, s) = (failed', s')"
  shows "(failed' = failed \<and> (\<exists>tr t. infer w tr p = Inr t)) \<or>
         (\<exists>e1 e2 e3. infer w (trace s) p = Inl e1 \<and>
            infer w (trace s @ failed_attempt p idx 1 e1) p = Inl e2 \<and>
            infer w (trace s @ failed_attempt p idx 1 e1 @ failed_attempt p idx 2 e2) p = Inl e3 \<and>
            failed' = failed @ [failure_record idx p e3])"
proof -
  from page_body_outcome [OF assms] obtain md new_failed evs where
    o: "page_outcome w all dir ps (idx, p) (trace s) (md, new_failed, evs)"
       "failed' = failed @ new_failed" by blast
  from o(1) have
    "(new_failed = [] \<and> (\<exists>tr t. infer w tr p = Inr t)) \<or>
     (\<exists>e1 e2 e3. infer w (trace s) p = Inl e1 \<and>
            infer w (trace s @ failed_attempt p idx 1 e1) p = Inl e2 \<and>
            infer w (trace s @ failed_attempt p idx 1 e1 @ failed_attempt p idx 2 e2) p = Inl e3 \<and>
            new_failed = [failure_record idx p e3])"
    unfolding page_outcome_def by (simp only: prod.case) blast
  with o(2) show ?thesis by auto
qed

lemma outcomes_failed:
  assumes "length outs = n"
    and "\<forall>i < n. \<exists>tr. page_outcome w all dir ps (Suc i, ips ! i) tr (outs ! i)"
  shows "length (concat (map (\<lambda>out. fst (snd out)) outs)) \<le> n"
    and "\<forall>f \<in> set (concat (map (\<lambda>out. fst (snd out)) outs)).
           \<exists>i < n. \<exists>e tr. infer w tr (ips ! i) = Inl e \<and> f = failure_record (Suc i) (ips ! i) e"
proof -
  have each: "\<forall>i < n. fst (snd (outs ! i)) = [] \<or>
     (\<exists>e tr. infer w tr (ips ! i) = Inl e \<and> fst (snd (outs ! i)) = [failure_record (Suc i) (ips ! i) e])"
  proof (intro allI impI)
    fix i assume i: "i < n"
    obtain md nf evs where o: "outs ! i = (md, nf, evs)" by (cases "outs ! i")
    from assms(2) i o obtain tr where "page_outcome w all dir ps (Suc i, ips ! i) tr (md, nf, evs)"
      by force
    from page_outcome_failed [OF this] o
    show "fst (snd (outs ! i)) = [] \<or>
     (\<exists>e tr. infer w tr (ips ! i) = Inl e \<and> fst (snd (outs ! i)) = [failure_record (Suc i) (ips ! i) e])"
      by auto
  qed
  have "length (concat (map (\<lambda>out. fst (snd out)) outs)) = sum_list (map (\<lambda>out. length (fst (snd out))) outs)"
    by (simp add: length_concat comp_def)
  also have "\<dots> \<le> sum_list (map (\<lambda>out. 1) outs)"
  proof (rule sum_list_mono)
    fix out assume "out \<in> set outs"
    then obtain i where "i < length outs" "outs ! i = out" by (auto simp: in_set_conv_nth)
    with each assms(1) show "length (fst (snd out)) \<le> 1" by force
  qed
  also have "\<dots> = n" using assms(1) by (simp add: sum_list_triv)
  finally show "length (concat (map (\<lambda>out. fst (snd out)) outs)) \<le> n" .
  show "\<forall>f \<in> set (concat (map (\<lambda>out. fst (snd out)) outs)).
           \<exists>i < n. \<exists>e tr. infer w tr (ips ! i) = Inl e \<and> f = failure_record (Suc i) (ips ! i) e"
  proof
    fix f assume "f \<in> set (concat (map (\<lambda>out. fst (snd out)) outs))"
    then obtain out where "out \<in> set outs" "f \<in> set (fst (snd out))" by auto
    then obtain i where i: "i < length outs" "outs ! i = out" by (auto simp: in_set_conv_nth)
    with each assms(1) \<open>f \<in> set (fst (snd out))\<close>
    show "\<exists>i < n. \<exists>e tr. infer w tr (ips ! i) = Inl e \<and> f = failure_record (Suc i) (ips ! i) e"
      by force
  qed
qed

text \<open>
  The claim that a failure record holds the page ordinal fails on the code when the range does
  not start at page 1: the record holds \<^verbatim>\<open>idx\<close>, the position of the page in the requested
  range, as the section headings do. In the sample world, where the inference of page 2 always
  raises, the run over the range 2 to 2 writes a ledger whose only record has
  \<^verbatim>\<open>page_num\<close> 1.
\<close>

theorem failure_record_holds_position_in_range:
  "files (snd (convert_pdf_to_markdown sample_world sample_pdf_path (Some sample_output_path) 450
                 (Some 2) (Some 2) empty_sys)) [''output'', ''sample_failed_pages.json''] =
     Some [Json (JArr [JObj [(''page_num'', JInt 1),
                             (''image_path'', JStr ''/tmp/pdf2img_x/page_0002.png''),
                             (''error'', JStr ''throttled'')]])]"
  by code_simp

text \<open>
  C5, as amended. (1) One page of step 3 either leaves \<^verbatim>\<open>failed_pages\<close> as it is, and then
  one of its inference calls succeeded, or its three inference calls raised and it appends
  exactly one record, which holds the position \<open>idx\<close> of the page in the requested range (the
  page ordinal when the range starts at page 1), the path of the page image and the
  description of the last error. (2) The pages that follow only append: the records that exist
  stay as they are, a prefix of the list. (3) A record is written to the ledger as an object
  with the keys \<^verbatim>\<open>page_num\<close>, \<^verbatim>\<open>image_path\<close> and \<^verbatim>\<open>error\<close>. (4) A run with an output path
  over a valid range returns; with \<open>failed\<close> its failure records, one for each page that is not
  counted as successful, the ledger file is left as it was if there is no record, and is the
  array of the records otherwise; each record belongs to a page of the range for which an
  inference call raised that error.
\<close>

theorem failure_records_and_ledger:
  "(\<forall>failed' s'.
      page_body w output_path_obj all_extracted_images images_dir page_start (idx, image_path)
        (failed_pages, s) = (failed', s') \<longrightarrow>
      (failed' = failed_pages \<and> (\<exists>tr t. infer w tr image_path = Inr t)) \<or>
      (\<exists>e1 e2 e3.
         infer w (trace s) image_path = Inl e1 \<and>
         infer w (trace s @ failed_attempt image_path idx 1 e1) image_path = Inl e2 \<and>
         infer w (trace s @ failed_attempt image_path idx 1 e1 @ failed_attempt image_path idx 2 e2)
           image_path = Inl e3 \<and>
         failed' = failed_pages @ [failure_record idx image_path e3])) \<and>
   (\<forall>xs failed' s'.
      fold (page_body w output_path_obj all_extracted_images images_dir page_start) xs (failed_pages, s) =
        (failed', s') \<longrightarrow> prefix failed_pages failed') \<and>
   failure_json (failure_record idx image_path e) =
     JObj [(''page_num'', JInt (int idx)), (''image_path'', JStr (str_path image_path)),
           (''error'', JStr (str_error e))] \<and>
   (valid_run w pdf_path dpi first_page last_page d fp lp \<longrightarrow>
      (\<exists>r s' failed.
         convert_pdf_to_markdown w pdf_path (Some out) dpi first_page last_page s0 = (Inr r, s') \<and>
         length failed \<le> total r \<and> successful r = total r - length failed \<and>
         files s' (failed_pages_file out) =
           (if failed = [] then files s0 (failed_pages_file out)
            else Some [Json (JArr (map failure_json failed))]) \<and>
         (\<forall>f \<in> set failed. \<exists>i < nat (lp - fp + 1). \<exists>e tr.
             infer w tr (raster_path (mkdtemp w) IMAGE_FORMAT (fp + int i)) = Inl e \<and>
             f = failure_record (Suc i) (raster_path (mkdtemp w) IMAGE_FORMAT (fp + int i)) e)))"
proof (intro conjI allI impI)
  fix failed' s'
  assume "page_body w output_path_obj all_extracted_images images_dir page_start (idx, image_path)
        (failed_pages, s) = (failed', s')"
  then show "(failed' = failed_pages \<and> (\<exists>tr t. infer w tr image_path = Inr t)) \<or>
      (\<exists>e1 e2 e3.
         infer w (trace s) image_path = Inl e1 \<and>
         infer w (trace s @ failed_attempt image_path idx 1 e1) image_path = Inl e2 \<and>
         infer w (trace s @ failed_attempt image_path idx 1 e1 @ failed_attempt image_path idx 2 e2)
           image_path = Inl e3 \<and>
         failed' = failed_pages @ [failure_record idx image_path e3])"
    by (rule page_body_record)
next
  fix xs failed' s'
  assume "fold (page_body w output_path_obj all_extracted_images images_dir page_start) xs (failed_pages, s) =
        (failed', s')"
  then show "prefix failed_pages failed'" by (rule fold_page_body_prefix)
next
  show "failure_json (failure_record idx image_path e) =
     JObj [(''page_num'', JInt (int idx)), (''image_path'', JStr (str_path image_path)),
           (''error'', JStr (str_error e))]"
    by (simp add: failure_json_def failure_record_def)
next
  assume v: "valid_run w pdf_path dpi first_page last_page d fp lp"
  let ?n = "nat (lp - fp + 1)"
  let ?ips = "map (raster_path (mkdtemp w) IMAGE_FORMAT) [fp..lp]"
  let ?all = "pages_with_graphics (fitz_open d) (images_dir_of out) [fp..lp]"
  obtain outs and s2 :: sys and evs2 s' where
    R: "convert_pdf_to_markdown w pdf_path (Some out) dpi first_page last_page s0 =
       (Inr \<lparr>successful = ?n - length (concat (map (\<lambda>out. fst (snd out)) outs)), total = ?n\<rparr>, s')"
    "length outs = ?n"
    "\<forall>i < ?n. \<exists>tr. page_outcome w ?all (Some (images_dir_of out)) fp (Suc i, ?ips ! i) tr (outs ! i)"
    "\<forall>p. length p \<noteq> length (parent out) + 2 \<longrightarrow> files s2 p = files s0 p"
    "files s' =
       (\<lambda>p. if p = metadata_file out \<and> ?all \<noteq> []
            then Some [Json (metadata_json (stem pdf_path) (isoformat_now w) ?all)]
            else if p = failed_pages_file out \<and> concat (map (\<lambda>out. fst (snd out)) outs) \<noteq> []
            then Some [Json (JArr (map failure_json (concat (map (\<lambda>out. fst (snd out)) outs))))]
            else if p = out
            then Some (Text (markdown_header (stem pdf_path) (strftime_now w) ?n) #
                       page_sections (enumerate_from 1 ?ips) outs)
            else files s2 p)"
    "trace s' = trace s0 @ map Rasterize [fp..lp] @ evs2 @ concat (map (\<lambda>out. snd (snd out)) outs)"
    "\<forall>e \<in> set evs2. \<forall>q. e \<noteq> Invoke q"
    by (rule convert_run [OF v])
  define failed where "failed = concat (map (\<lambda>out. fst (snd out)) outs)"
  note F = outcomes_failed [OF R(2,3), folded failed_def]
  have ledger: "files s' (failed_pages_file out) =
           (if failed = [] then files s0 (failed_pages_file out)
            else Some [Json (JArr (map failure_json failed))])"
    using failed_pages_file_neq_metadata_file [of out] out_neq_failed_pages_file [of out] R(4)
    by (simp add: R(5) failed_def [symmetric] length_ledgers)
  have recs: "\<forall>f \<in> set failed. \<exists>i < ?n. \<exists>e tr.
             infer w tr (raster_path (mkdtemp w) IMAGE_FORMAT (fp + int i)) = Inl e \<and>
             f = failure_record (Suc i) (raster_path (mkdtemp w) IMAGE_FORMAT (fp + int i)) e"
  proof
    fix f assume "f \<in> set failed"
    with F(2) obtain i e tr where i: "i < ?n" "infer w tr (?ips ! i) = Inl e"
      "f = failure_record (Suc i) (?ips ! i) e" by blast
    moreover have "?ips ! i = raster_path (mkdtemp w) IMAGE_FORMAT (fp + int i)"
      using i(1) by (rule nth_raster_paths)
    ultimately show "\<exists>i < ?n. \<exists>e tr.
             infer w tr (raster_path (mkdtemp w) IMAGE_FORMAT (fp + int i)) = Inl e \<and>
             f = failure_record (Suc i) (raster_path (mkdtemp w) IMAGE_FORMAT (fp + int i)) e"
      by auto
  qed
  show "\<exists>r s' failed.
         convert_pdf_to_markdown w pdf_path (Some out) dpi first_page last_page s0 = (Inr r, s') \<and>
         length failed \<le> total r \<and> successful r = total r - length failed \<and>
         files s' (failed_pages_file out) =
           (if failed = [] then files s0 (failed_pages_file out)
            else Some [Json (JArr (map failure_json failed))]) \<and>
         (\<forall>f \<in> set failed. \<exists>i < nat (lp - fp + 1). \<exists>e tr.
             infer w tr (raster_path (mkdtemp w) IMAGE_FORMAT (fp + int i)) = Inl e \<and>
             f = failure_record (Suc i) (raster_path (mkdtemp w) IMAGE_FORMAT (fp + int i)) e)"
    using R(1) F(1) ledger recs unfolding failed_def [symmetric]
    by (intro exI [of _ failed] exI conjI) auto
qed

lemma sample_valid_run_page2:
  "valid_run sample_world sample_pdf_path 450 (Some 2) (Some 2) sample_pdf 2 2"
  by (simp add: valid_run_def sample_world_def sample_pdf_def sample_document_def)

theorem failure_records_and_ledger_witness:
  "valid_run sample_world sample_pdf_path 450 (Some 2) (Some 2) sample_pdf 2 2 \<and>
   (\<exists>e1 e2 e3.
      infer sample_world (trace empty_sys) page2_image = Inl e1 \<and>
      infer sample_world (trace empty_sys @ failed_attempt page2_image 1 1 e1) page2_image = Inl e2 \<and>
      infer sample_world
        (trace empty_sys @ failed_attempt page2_image 1 1 e1 @ failed_attempt page2_image 1 2 e2)
        page2_image = Inl e3 \<and>
      fst (page_body sample_world (Some sample_output_path) [] None 2 (1, page2_image) ([], empty_sys)) =
        [] @ [failure_record 1 page2_image e3]) \<and>
   prefix [] (fst (fold (page_body sample_world (Some sample_output_path) [] None 2) [(1, page2_image)]
                     ([], empty_sys))) \<and>
   (\<exists>r s' failed.
      convert_pdf_to_markdown sample_world sample_pdf_path (Some sample_output_path) 450 (Some 2) (Some 2)
        empty_sys = (Inr r, s') \<and>
      length failed \<le> total r \<and> successful r = total r - length failed \<and>
      files s' (failed_pages_file sample_output_path) =
        (if failed = [] then files empty_sys (failed_pages_file sample_output_path)
         else Some [Json (JArr (map failure_json failed))]) \<and>
      (\<forall>f \<in> set failed. \<exists>i < nat (2 - 2 + 1). \<exists>e tr.
          infer sample_world tr (raster_path (mkdtemp sample_world) IMAGE_FORMAT (2 + int i)) = Inl e \<and>
          f = failure_record (Suc i) (raster_path (mkdtemp sample_world) IMAGE_FORMAT (2 + int i)) e))"
proof -
  note T = failure_records_and_ledger [where w = sample_world and output_path_obj = "Some sample_output_path"
      and all_extracted_images = "[]" and images_dir = None and page_start = 2 and idx = 1
      and image_path = page2_image and failed_pages = "[]" and s = empty_sys
      and pdf_path = sample_pdf_path and dpi = 450 and first_page = "Some 2" and last_page = "Some 2"
      and d = sample_pdf and fp = 2 and lp = 2 and out = sample_output_path and ?s0.0 = empty_sys]
  have no_success: "\<not> (\<exists>tr t. infer sample_world tr page2_image = Inr t)"
    by (simp add: sample_world_def page2_image_def)
  have pb: "page_body sample_world (Some sample_output_path) [] None 2 (1, page2_image) ([], empty_sys) =
      (fst (page_body sample_world (Some sample_output_path) [] None 2 (1, page2_image) ([], empty_sys)),
       snd (page_body sample_world (Some sample_output_path) [] None 2 (1, page2_image) ([], empty_sys)))"
    by simp
  have fd: "fold (page_body sample_world (Some sample_output_path) [] None 2) [(1, page2_image)] ([], empty_sys) =
      (fst (fold (page_body sample_world (Some sample_output_path) [] None 2) [(1, page2_image)] ([], empty_sys)),
       snd (fold (page_body sample_world (Some sample_output_path) [] None 2) [(1, page2_image)] ([], empty_sys)))"
    by simp
  from T [THEN conjunct1, rule_format, OF pb] no_success
  have p1: "\<exists>e1 e2 e3.
      infer sample_world (trace empty_sys) page2_image = Inl e1 \<and>
      infer sample_world (trace empty_sys @ failed_attempt page2_image 1 1 e1) page2_image = Inl e2 \<and>
      infer sample_world
        (trace empty_sys @ failed_attempt page2_image 1 1 e1 @ failed_attempt page2_image 1 2 e2)
        page2_image = Inl e3 \<and>
      fst (page_body sample_world (Some sample_output_path) [] None 2 (1, page2_image) ([], empty_sys)) =
        [] @ [failure_record 1 page2_image e3]"
    by blast
  from T [THEN conjunct2, THEN conjunct1, rule_format, OF fd]
  have p2: "prefix [] (fst (fold (page_body sample_world (Some sample_output_path) [] None 2)
      [(1, page2_image)] ([], empty_sys)))" .
  from T [THEN conjunct2, THEN conjunct2, THEN conjunct2, rule_format, OF sample_valid_run_page2]
  have p3: "\<exists>r s' failed.
      convert_pdf_to_markdown sample_world sample_pdf_path (Some sample_output_path) 450 (Some 2) (Some 2)
        empty_sys = (Inr r, s') \<and>
      length failed \<le> total r \<and> successful r = total r - length failed \<and>
      files s' (failed_pages_file sample_output_path) =
        (if failed = [] then files empty_sys (failed_pages_file sample_output_path)
         else Some [Json (JArr (map failure_json failed))]) \<and>
      (\<forall>f \<in> set failed. \<exists>i < nat (2 - 2 + 1). \<exists>e tr.
          infer sample_world tr (raster_path (mkdtemp sample_world) IMAGE_FORMAT (2 + int i)) = Inl e \<and>
          f = failure_record (Suc i) (raster_path (mkdtemp sample_world) IMAGE_FORMAT (2 + int i)) e)" .
  show ?thesis
    using sample_valid_run_page2 p1 p2 p3 by (intro conjI)
qed

section \<open>The metadata ledger\<close>

lemma foldl_extend:
  "foldl (\<lambda>all_images (page_num, images). all_images @ images) acc xs = acc @ concat (map snd xs)"
  by (induction xs arbitrary: acc) (auto simp: case_prod_beta)

lemma metadata_json_eq:
  "metadata_json document_name now extracted_images =
     JObj [(''document'', JStr document_name),
           (''conversion_date'', JStr now),
           (''total_pages'', JInt (int (length extracted_images))),
           (''total_images'', JInt (int (length (concat (map snd extracted_images))))),
           (''images'', JArr (map image_meta_json (concat (map snd extracted_images))))]"
  by (simp add: metadata_json_def Let_def foldl_extend)

lemma length_concat_snd:
  "length (concat (map snd extracted_images)) =
     sum_list (map (\<lambda>(page_num, images). length images) extracted_images)"
  by (induction extracted_images) auto

lemma concat_pages_with_graphics:
  "concat (map snd (pages_with_graphics doc dir pages)) =
     concat (map (\<lambda>p. page_graphics doc p dir MIN_IMAGE_WIDTH MIN_IMAGE_HEIGHT) pages)"
  by (induction pages) (auto simp: pages_with_graphics_def)

lemma length_pages_with_graphics:
  "distinct pages \<Longrightarrow>
     length (pages_with_graphics doc dir pages) =
       card {p \<in> set pages. page_graphics doc p dir MIN_IMAGE_WIDTH MIN_IMAGE_HEIGHT \<noteq> []}"
proof -
  assume d: "distinct pages"
  let ?P = "\<lambda>p. page_graphics doc p dir MIN_IMAGE_WIDTH MIN_IMAGE_HEIGHT \<noteq> []"
  have "pages_with_graphics doc dir pages =
          map (\<lambda>p. (p, page_graphics doc p dir MIN_IMAGE_WIDTH MIN_IMAGE_HEIGHT)) (filter ?P pages)"
    by (induction pages) (auto simp: pages_with_graphics_def)
  then have "length (pages_with_graphics doc dir pages) = length (filter ?P pages)" by simp
  also have "\<dots> = card (set (filter ?P pages))"
    using d distinct_card [of "filter ?P pages"] by (simp del: set_filter)
  also have "set (filter ?P pages) = {p \<in> set pages. ?P p}" by auto
  finally show ?thesis .
qed

lemma pages_with_graphics_dims:
  "m \<in> set (concat (map snd (pages_with_graphics doc dir pages))) \<Longrightarrow>
     MIN_IMAGE_WIDTH \<le> m_width m \<and> MIN_IMAGE_HEIGHT \<le> m_height m"
  by (auto simp: concat_pages_with_graphics dest: page_graphics_dims)

lemma convert_metadata_file:
  assumes v: "valid_run w pdf_path dpi first_page last_page d fp lp"
  shows "\<exists>r s'.
     convert_pdf_to_markdown w pdf_path (Some out) dpi first_page last_page s = (Inr r, s') \<and>
     files s' (metadata_file out) =
       (if pages_with_graphics (fitz_open d) (images_dir_of out) [fp..lp] = []
        then files s (metadata_file out)
        else Some [Json (metadata_json (stem pdf_path) (isoformat_now w)
                           (pages_with_graphics (fitz_open d) (images_dir_of out) [fp..lp]))])"
proof -
  let ?n = "nat (lp - fp + 1)"
  let ?ips = "map (raster_path (mkdtemp w) IMAGE_FORMAT) [fp..lp]"
  let ?all = "pages_with_graphics (fitz_open d) (images_dir_of out) [fp..lp]"
  obtain outs and s2 :: sys and evs2 s' where
    R: "convert_pdf_to_markdown w pdf_path (Some out) dpi first_page last_page s =
       (Inr \<lparr>successful = ?n - length (concat (map (\<lambda>out. fst (snd out)) outs)), total = ?n\<rparr>, s')"
    "length outs = ?n"
    "\<forall>i < ?n. \<exists>tr. page_outcome w ?all (Some (images_dir_of out)) fp (Suc i, ?ips ! i) tr (outs ! i)"
    "\<forall>p. length p \<noteq> length (parent out) + 2 \<longrightarrow> files s2 p = files s p"
    "files s' =
       (\<lambda>p. if p = metadata_file out \<and> ?all \<noteq> []
            then Some [Json (metadata_json (stem pdf_path) (isoformat_now w) ?all)]
            else if p = failed_pages_file out \<and> concat (map (\<lambda>out. fst (snd out)) outs) \<noteq> []
            then Some [Json (JArr (map failure_json (concat (map (\<lambda>out. fst (snd out)) outs))))]
            else if p = out
            then Some (Text (markdown_header (stem pdf_path) (strftime_now w) ?n) #
                       page_sections (enumerate_from 1 ?ips) outs)
            else files s2 p)"
    "trace s' = trace s @ map Rasterize [fp..lp] @ evs2 @ concat (map (\<lambda>out. snd (snd out)) outs)"
    "\<forall>e \<in> set evs2. \<forall>q. e \<noteq> Invoke q"
    by (rule convert_run [OF v])
  have "files s' (metadata_file out) =
       (if ?all = [] then files s (metadata_file out)
        else Some [Json (metadata_json (stem pdf_path) (isoformat_now w) ?all)])"
    using failed_pages_file_neq_metadata_file [of out] out_neq_metadata_file [of out] R(4)
    by (auto simp: R(5) length_ledgers)
  with R(1) show ?thesis by blast
qed

text \<open>
  C10. In the metadata ledger \<^verbatim>\<open>total_pages\<close> is the number of entries of the dictionary
  \<^verbatim>\<open>extracted_images\<close> and \<^verbatim>\<open>total_images\<close> is the length of the flattened list
  \<^verbatim>\<open>images\<close>, the sum of the numbers of graphics of the entries. In a run the dictionary
  \<open>ex\<close> has one entry for each page of the range that yielded at least one graphic, so
  \<^verbatim>\<open>total_pages\<close> is the number of these pages, not the number of pages of the run, and
  \<^verbatim>\<open>images\<close> lists the graphics of the pages of the range in page order. The ledger is
  written when the dictionary is not empty.
\<close>

theorem metadata_ledger_counts:
  "metadata_json document_name now extracted_images =
     JObj [(''document'', JStr document_name),
           (''conversion_date'', JStr now),
           (''total_pages'', JInt (int (length extracted_images))),
           (''total_images'', JInt (int (length (concat (map snd extracted_images))))),
           (''images'', JArr (map image_meta_json (concat (map snd extracted_images))))] \<and>
   length (concat (map snd extracted_images)) =
     sum_list (map (\<lambda>(page_num, images). length images) extracted_images) \<and>
   (valid_run w pdf_path dpi first_page last_page d fp lp \<longrightarrow>
      (\<exists>r s' ex.
         convert_pdf_to_markdown w pdf_path (Some out) dpi first_page last_page s = (Inr r, s') \<and>
         files s' (metadata_file out) =
           (if ex = [] then files s (metadata_file out)
            else Some [Json (metadata_json (stem pdf_path) (isoformat_now w) ex)]) \<and>
         length ex =
           card {p \<in> {fp..lp}.
                   page_graphics (fitz_open d) p (images_dir_of out) MIN_IMAGE_WIDTH MIN_IMAGE_HEIGHT \<noteq> []} \<and>
         concat (map snd ex) =
           concat (map (\<lambda>p. page_graphics (fitz_open d) p (images_dir_of out) MIN_IMAGE_WIDTH
                               MIN_IMAGE_HEIGHT) [fp..lp])))"
proof (intro conjI impI)
  show "metadata_json document_name now extracted_images =
     JObj [(''document'', JStr document_name),
           (''conversion_date'', JStr now),
           (''total_pages'', JInt (int (length extracted_images))),
           (''total_images'', JInt (int (length (concat (map snd extracted_images))))),
           (''images'', JArr (map image_meta_json (concat (map snd extracted_images))))]"
    by (rule metadata_json_eq)
  show "length (concat (map snd extracted_images)) =
     sum_list (map (\<lambda>(page_num, images). length images) extracted_images)"
    by (rule length_concat_snd)
next
  assume v: "valid_run w pdf_path dpi first_page last_page d fp lp"
  let ?ex = "pages_with_graphics (fitz_open d) (images_dir_of out) [fp..lp]"
  from convert_metadata_file [OF v, of out s] obtain r s' where
    "convert_pdf_to_markdown w pdf_path (Some out) dpi first_page last_page s = (Inr r, s')"
    "files s' (metadata_file out) =
       (if ?ex = [] then files s (metadata_file out)
        else Some [Json (metadata_json (stem pdf_path) (isoformat_now w) ?ex)])"
    by blast
  moreover have "length ?ex =
           card {p \<in> {fp..lp}.
                   page_graphics (fitz_open d) p (images_dir_of out) MIN_IMAGE_WIDTH MIN_IMAGE_HEIGHT \<noteq> []}"
    using length_pages_with_graphics [of "[fp..lp]"] by simp
  moreover note concat_pages_with_graphics [of "fitz_open d" "images_dir_of out" "[fp..lp]"]
  ultimately show "\<exists>r s' ex.
         convert_pdf_to_markdown w pdf_path (Some out) dpi first_page last_page s = (Inr r, s') \<and>
         files s' (metadata_file out) =
           (if ex = [] then files s (metadata_file out)
            else Some [Json (metadata_json (stem pdf_path) (isoformat_now w) ex)]) \<and>
         length ex =
           card {p \<in> {fp..lp}.
                   page_graphics (fitz_open d) p (images_dir_of out) MIN_IMAGE_WIDTH MIN_IMAGE_HEIGHT \<noteq> []} \<and>
         concat (map snd ex) =
           concat (map (\<lambda>p. page_graphics (fitz_open d) p (images_dir_of out) MIN_IMAGE_WIDTH
                               MIN_IMAGE_HEIGHT) [fp..lp])"
    by blast
qed

theorem metadata_ledger_counts_witness:
  "valid_run sample_world sample_pdf_path 450 None None sample_pdf 1 2 \<and>
   card {p \<in> {1..2}.
           page_graphics (fitz_open sample_pdf) p (images_dir_of sample_output_path) MIN_IMAGE_WIDTH
             MIN_IMAGE_HEIGHT \<noteq> []} = 1 \<and>
   (\<exists>r s' ex.
      convert_pdf_to_markdown sample_world sample_pdf_path (Some sample_output_path) 450 None None
        empty_sys = (Inr r, s') \<and>
      total r = 2 \<and> length ex = 1 \<and>
      files s' (metadata_file sample_output_path) =
        Some [Json (metadata_json (stem sample_pdf_path) (isoformat_now sample_world) ex)])"
proof -
  have c: "{p \<in> {1..2}.
           page_graphics (fitz_open sample_pdf) p (images_dir_of sample_output_path) MIN_IMAGE_WIDTH
             MIN_IMAGE_HEIGHT \<noteq> []} = {1::int}"
  proof -
    have "{1..2} = {1, 2::int}" by auto
    moreover have "page_graphics (fitz_open sample_pdf) 1 (images_dir_of sample_output_path)
        MIN_IMAGE_WIDTH MIN_IMAGE_HEIGHT \<noteq> []" by code_simp
    moreover have "page_graphics (fitz_open sample_pdf) 2 (images_dir_of sample_output_path)
        MIN_IMAGE_WIDTH MIN_IMAGE_HEIGHT = []" by code_simp
    ultimately show ?thesis by auto
  qed
  from metadata_ledger_counts [where w = sample_world and pdf_path = sample_pdf_path and dpi = 450
      and first_page = None and last_page = None and d = sample_pdf and fp = 1 and lp = 2
      and out = sample_output_path and s = empty_sys, THEN conjunct2, THEN conjunct2, rule_format,
      OF sample_valid_run]
  obtain r s' ex where
    R: "convert_pdf_to_markdown sample_world sample_pdf_path (Some sample_output_path) 450 None None
          empty_sys = (Inr r, s')"
       "files s' (metadata_file sample_output_path) =
          (if ex = [] then files empty_sys (metadata_file sample_output_path)
           else Some [Json (metadata_json (stem sample_pdf_path) (isoformat_now sample_world) ex)])"
       "length ex = card {p \<in> {1..2}.
           page_graphics (fitz_open sample_pdf) p (images_dir_of sample_output_path) MIN_IMAGE_WIDTH
             MIN_IMAGE_HEIGHT \<noteq> []}"
    by blast
  have len: "length ex = 1" using R(3) c by simp
  then have ne: "ex \<noteq> []" by auto
  from convert_output_file [OF sample_valid_run, of sample_output_path empty_sys] R(1)
  have tot: "total r = 2" by auto
  show ?thesis
    using sample_valid_run c R(1) R(2) len ne tot by auto
qed

section \<open>The header of the output\<close>

text \<open>
  C9. \<^verbatim>\<open>_write_markdown_header\<close> leaves the output file with the header as its only piece,
  whatever the file held before. A run with an output path over a valid range calls it once,
  before the first page: when the run returns, the file is the header followed by the
  sections of the run, none of which is the header. The result does not depend on the state
  in which the run starts, so a run on the path of an earlier run replaces the old header and
  the old sections.
\<close>

theorem header_written_once:
  "files (write_markdown_header w out document_name total_pages s) out =
     Some [Text (markdown_header document_name (strftime_now w) total_pages)] \<and>
   (valid_run w pdf_path dpi first_page last_page d fp lp \<longrightarrow>
      (\<exists>r s' mds.
         convert_pdf_to_markdown w pdf_path (Some out) dpi first_page last_page s = (Inr r, s') \<and>
         files s' out =
           Some (Text (markdown_header (stem pdf_path) (strftime_now w) (nat (lp - fp + 1))) #
                 sections mds) \<and>
         Text (markdown_header (stem pdf_path) (strftime_now w) (nat (lp - fp + 1))) \<notin>
           set (sections mds)))"
proof (intro conjI impI)
  show "files (write_markdown_header w out document_name total_pages s) out =
     Some [Text (markdown_header document_name (strftime_now w) total_pages)]"
    by (simp add: write_markdown_header_def)
next
  assume v: "valid_run w pdf_path dpi first_page last_page d fp lp"
  from convert_output_file [OF v, of out s] obtain r s' mds where
    "convert_pdf_to_markdown w pdf_path (Some out) dpi first_page last_page s = (Inr r, s')"
    "files s' out =
       Some (Text (markdown_header (stem pdf_path) (strftime_now w) (nat (lp - fp + 1))) # sections mds)"
    by blast
  then show "\<exists>r s' mds.
         convert_pdf_to_markdown w pdf_path (Some out) dpi first_page last_page s = (Inr r, s') \<and>
         files s' out =
           Some (Text (markdown_header (stem pdf_path) (strftime_now w) (nat (lp - fp + 1))) #
                 sections mds) \<and>
         Text (markdown_header (stem pdf_path) (strftime_now w) (nat (lp - fp + 1))) \<notin>
           set (sections mds)"
    using header_not_in_sections by blast
qed

lemma later_valid_run: "valid_run later_world sample_pdf_path 450 (Some 1) (Some 1) sample_pdf 1 1"
  by (simp add: valid_run_def later_world_def sample_world_def sample_pdf_def sample_document_def)

theorem header_written_once_witness:
  "valid_run later_world sample_pdf_path 450 (Some 1) (Some 1) sample_pdf 1 1 \<and>
   files after_first_run sample_output_path =
     Some [Text (markdown_header ''sample'' ''2025-01-01 00:00:00'' 2)] \<and>
   (\<exists>r s' mds.
      convert_pdf_to_markdown later_world sample_pdf_path (Some sample_output_path) 450 (Some 1) (Some 1)
        after_first_run = (Inr r, s') \<and>
      files s' sample_output_path =
        Some (Text (markdown_header (stem sample_pdf_path) (strftime_now later_world) (nat (1 - 1 + 1))) #
              sections mds) \<and>
      Text (markdown_header (stem sample_pdf_path) (strftime_now later_world) (nat (1 - 1 + 1))) \<notin>
        set (sections mds))"
proof -
  have first: "files after_first_run sample_output_path =
     Some [Text (markdown_header ''sample'' ''2025-01-01 00:00:00'' 2)]"
    by code_simp
  from header_written_once [where w = later_world and pdf_path = sample_pdf_path and dpi = 450
      and first_page = "Some 1" and last_page = "Some 1" and d = sample_pdf and fp = 1 and lp = 1
      and out = sample_output_path and s = after_first_run, THEN conjunct2, rule_format,
      OF later_valid_run]
  show ?thesis
    using later_valid_run first by (intro conjI)
qed

section \<open>Graphics below the minimum size\<close>

lemma extract_body_written:
  "extract_body doc page_num dir mw mh x (imgs, s) = (imgs', s') \<Longrightarrow>
     written_graphic doc mw mh s s' p"
proof (cases x)
  case (Pair i xref)
  assume e: "extract_body doc page_num dir mw mh x (imgs, s) = (imgs', s')"
  show ?thesis
  proof (cases "extract_image doc xref")
    case (Raised err)
    with e Pair show ?thesis
      by (auto simp: extract_body_def written_graphic_def Let_def)
  next
    case Falsy
    with e Pair show ?thesis
      by (auto simp: extract_body_def written_graphic_def Let_def)
  next
    case (Extracted b)
    show ?thesis
    proof (cases "bi_width b < mw \<or> bi_height b < mh")
      case True
      with e Pair Extracted show ?thesis
        by (auto simp: extract_body_def written_graphic_def Let_def)
    next
      case False
      with e Pair Extracted
      have "files s' p = files s p \<or> files s' p = Some [Bytes (bi_image b)]"
        by (auto simp: extract_body_def Let_def)
      with False Extracted show ?thesis
        unfolding written_graphic_def by (metis not_less)
    qed
  qed
qed

lemma written_graphic_trans:
  "written_graphic doc mw mh s s1 p \<Longrightarrow> written_graphic doc mw mh s1 s' p \<Longrightarrow>
     written_graphic doc mw mh s s' p"
  unfolding written_graphic_def by metis

lemma fold_extract_body_written:
  "fold (extract_body doc page_num dir mw mh) xs (imgs, s) = (imgs', s') \<Longrightarrow>
     written_graphic doc mw mh s s' p"
proof (induction xs arbitrary: imgs s)
  case Nil
  then show ?case by (simp add: written_graphic_def)
next
  case (Cons x xs)
  obtain imgs1 s1 where b: "extract_body doc page_num dir mw mh x (imgs, s) = (imgs1, s1)"
    by (cases "extract_body doc page_num dir mw mh x (imgs, s)")
  from Cons.prems b have f: "fold (extract_body doc page_num dir mw mh) xs (imgs1, s1) = (imgs', s')"
    by simp
  from extract_body_written [OF b] Cons.IH [OF f] show ?case
    by (rule written_graphic_trans)
qed

lemma extract_images_from_page_written:
  assumes "extract_images_from_page doc page_num dir mw mh s = (r, s')"
  shows "(\<forall>imgs. r = Inr imgs \<longrightarrow> (\<forall>m \<in> set imgs. mw \<le> m_width m \<and> mh \<le> m_height m)) \<and>
         (\<forall>p. written_graphic doc mw mh s s' p)"
proof (cases "page_num < 1 \<or> page_num > page_count doc")
  case True
  with assms show ?thesis
    by (auto simp: extract_images_from_page_def written_graphic_def)
next
  case False
  obtain imgs' s1 where f: "fold (extract_body doc page_num dir mw mh)
      (enumerate_from 1 (get_images doc (page_num - 1))) ([], s) = (imgs', s1)"
    by (cases "fold (extract_body doc page_num dir mw mh)
      (enumerate_from 1 (get_images doc (page_num - 1))) ([], s)")
  from assms False f have r: "r = Inr imgs'" "s' = s1"
    by (auto simp: extract_images_from_page_def)
  from fold_extract_body_result [OF f] have "imgs' = page_graphics doc page_num dir mw mh"
    by (simp add: page_graphics_def)
  with r show ?thesis
    using fold_extract_body_written [OF f] page_graphics_dims by blast
qed

text \<open>
  C6. A graphic whose width or height is below the minimum is never written, never returned
  and never listed in the metadata ledger. Whatever \<^verbatim>\<open>extract_images_from_page\<close> returns,
  every returned graphic reaches both minimums, and every file that the call changed holds
  the bytes of a graphic of the document that reaches both minimums. After a run over a valid
  range the metadata ledger is either untouched or lists the graphics that the pages of the
  range yield under \<^verbatim>\<open>Config.MIN_IMAGE_WIDTH\<close> and \<^verbatim>\<open>Config.MIN_IMAGE_HEIGHT\<close>, each of
  which reaches both.
\<close>

theorem small_graphics_never_materialized:
  "(\<forall>r s'. extract_images_from_page doc page_num output_dir min_width min_height s = (r, s') \<longrightarrow>
      (\<forall>imgs. r = Inr imgs \<longrightarrow>
         (\<forall>m \<in> set imgs. min_width \<le> m_width m \<and> min_height \<le> m_height m)) \<and>
      (\<forall>p. files s' p = files s p \<or>
           (\<exists>xref b. extract_image doc xref = Extracted b \<and> min_width \<le> bi_width b \<and>
              min_height \<le> bi_height b \<and> files s' p = Some [Bytes (bi_image b)]))) \<and>
   (valid_run w pdf_path dpi first_page last_page d fp lp \<longrightarrow>
      (\<exists>r s'.
         convert_pdf_to_markdown w pdf_path (Some out) dpi first_page last_page s0 = (Inr r, s') \<and>
         files s' (metadata_file out) =
           (if pages_with_graphics (fitz_open d) (images_dir_of out) [fp..lp] = []
            then files s0 (metadata_file out)
            else Some [Json (metadata_json (stem pdf_path) (isoformat_now w)
                   (pages_with_graphics (fitz_open d) (images_dir_of out) [fp..lp]))]) \<and>
         (\<forall>m \<in> set (concat (map snd
                 (pages_with_graphics (fitz_open d) (images_dir_of out) [fp..lp]))).
            MIN_IMAGE_WIDTH \<le> m_width m \<and> MIN_IMAGE_HEIGHT \<le> m_height m)))"
proof -
  have a: "(\<forall>imgs. r = Inr imgs \<longrightarrow>
         (\<forall>m \<in> set imgs. min_width \<le> m_width m \<and> min_height \<le> m_height m)) \<and>
      (\<forall>p. files s' p = files s p \<or>
           (\<exists>xref b. extract_image doc xref = Extracted b \<and> min_width \<le> bi_width b \<and>
              min_height \<le> bi_height b \<and> files s' p = Some [Bytes (bi_image b)]))"
    if e: "extract_images_from_page doc page_num output_dir min_width min_height s = (r, s')"
    for r s'
    using extract_images_from_page_written [OF e] unfolding written_graphic_def .
  have b: "\<exists>r s'.
         convert_pdf_to_markdown w pdf_path (Some out) dpi first_page last_page s0 = (Inr r, s') \<and>
         files s' (metadata_file out) =
           (if pages_with_graphics (fitz_open d) (images_dir_of out) [fp..lp] = []
            then files s0 (metadata_file out)
            else Some [Json (metadata_json (stem pdf_path) (isoformat_now w)
                   (pages_with_graphics (fitz_open d) (images_dir_of out) [fp..lp]))]) \<and>
         (\<forall>m \<in> set (concat (map snd
                 (pages_with_graphics (fitz_open d) (images_dir_of out) [fp..lp]))).
            MIN_IMAGE_WIDTH \<le> m_width m \<and> MIN_IMAGE_HEIGHT \<le> m_height m)"
    if v: "valid_run w pdf_path dpi first_page last_page d fp lp"
  proof -
    let ?ex = "pages_with_graphics (fitz_open d) (images_dir_of out) [fp..lp]"
    from convert_metadata_file [OF v, of out s0] obtain r s' where
      "convert_pdf_to_markdown w pdf_path (Some out) dpi first_page last_page s0 = (Inr r, s')"
      "files s' (metadata_file out) =
         (if ?ex = [] then files s0 (metadata_file out)
          else Some [Json (metadata_json (stem pdf_path) (isoformat_now w) ?ex)])"
      by blast
    moreover have "\<forall>m \<in> set (concat (map snd ?ex)).
              MIN_IMAGE_WIDTH \<le> m_width m \<and> MIN_IMAGE_HEIGHT \<le> m_height m"
      using pages_with_graphics_dims by blast
    ultimately show ?thesis
      by blast
  qed
  show ?thesis
    by (rule conjI, intro allI impI, erule a, rule impI, erule b)
qed

theorem small_graphics_never_materialized_witness:
  "valid_run sample_world sample_pdf_path 450 None None sample_pdf 1 2 \<and>
   extract_image sample_document 9 =
     Extracted \<lparr>bi_image = ''tiny'', bi_ext = ''png'', bi_width = 10, bi_height = 480\<rparr> \<and>
   fst (extract_images_from_page sample_document 1 sample_images_dir 100 100 empty_sys) =
     Inr [\<lparr>m_filename = ''page_001_img_001.png'',
           m_path = ''output/sample_images/page_001_img_001.png'',
           m_width = 640, m_height = 480, m_size = 8, m_format = ''png'', m_page_num = 1,
           m_index = 1\<rparr>] \<and>
   (\<forall>p. files after_extraction p = files empty_sys p \<or>
        (\<exists>xref b. extract_image sample_document xref = Extracted b \<and> 100 \<le> bi_width b \<and>
           100 \<le> bi_height b \<and> files after_extraction p = Some [Bytes (bi_image b)])) \<and>
   files after_extraction (sample_images_dir @ [''page_001_img_003.png'']) = None \<and>
   (\<exists>r s'.
      convert_pdf_to_markdown sample_world sample_pdf_path (Some sample_output_path) 450 None None
        empty_sys = (Inr r, s') \<and>
      files s' (metadata_file sample_output_path) =
        (if pages_with_graphics (fitz_open sample_pdf) (images_dir_of sample_output_path) [1..2] = []
         then files empty_sys (metadata_file sample_output_path)
         else Some [Json (metadata_json (stem sample_pdf_path) (isoformat_now sample_world)
                (pages_with_graphics (fitz_open sample_pdf) (images_dir_of sample_output_path)
                   [1..2]))]) \<and>
      (\<forall>m \<in> set (concat (map snd
              (pages_with_graphics (fitz_open sample_pdf) (images_dir_of sample_output_path)
                 [1..2]))).
         MIN_IMAGE_WIDTH \<le> m_width m \<and> MIN_IMAGE_HEIGHT \<le> m_height m))"
proof -
  note T = small_graphics_never_materialized [where doc = sample_document and page_num = 1
      and output_dir = sample_images_dir and min_width = 100 and min_height = 100 and s = empty_sys
      and w = sample_world and pdf_path = sample_pdf_path and dpi = 450 and first_page = None
      and last_page = None and d = sample_pdf and fp = 1 and lp = 2 and out = sample_output_path
      and ?s0.0 = empty_sys]
  have e: "extract_images_from_page sample_document 1 sample_images_dir 100 100 empty_sys =
      (fst (extract_images_from_page sample_document 1 sample_images_dir 100 100 empty_sys),
       after_extraction)"
    by (simp add: after_extraction_def)
  have g9: "extract_image sample_document 9 =
     Extracted \<lparr>bi_image = ''tiny'', bi_ext = ''png'', bi_width = 10, bi_height = 480\<rparr>"
    by (simp add: sample_document_def)
  have r: "fst (extract_images_from_page sample_document 1 sample_images_dir 100 100 empty_sys) =
     Inr [\<lparr>m_filename = ''page_001_img_001.png'',
           m_path = ''output/sample_images/page_001_img_001.png'',
           m_width = 640, m_height = 480, m_size = 8, m_format = ''png'', m_page_num = 1,
           m_index = 1\<rparr>]"
    by code_simp
  have n3: "files after_extraction (sample_images_dir @ [''page_001_img_003.png'']) = None"
    by code_simp
  from T [THEN conjunct1, rule_format, OF e]
  have p1: "\<forall>p. files after_extraction p = files empty_sys p \<or>
        (\<exists>xref b. extract_image sample_document xref = Extracted b \<and> 100 \<le> bi_width b \<and>
           100 \<le> bi_height b \<and> files after_extraction p = Some [Bytes (bi_image b)])"
    by blast
  from T [THEN conjunct2, rule_format, OF sample_valid_run]
  have p2: "\<exists>r s'.
      convert_pdf_to_markdown sample_world sample_pdf_path (Some sample_output_path) 450 None None
        empty_sys = (Inr r, s') \<and>
      files s' (metadata_file sample_output_path) =
        (if pages_with_graphics (fitz_open sample_pdf) (images_dir_of sample_output_path) [1..2] = []
         then files empty_sys (metadata_file sample_output_path)
         else Some [Json (metadata_json (stem sample_pdf_path) (isoformat_now sample_world)
                (pages_with_graphics (fitz_open sample_pdf) (images_dir_of sample_output_path)
                   [1..2]))]) \<and>
      (\<forall>m \<in> set (concat (map snd
              (pages_with_graphics (fitz_open sample_pdf) (images_dir_of sample_output_path)
                 [1..2]))).
         MIN_IMAGE_WIDTH \<le> m_width m \<and> MIN_IMAGE_HEIGHT \<le> m_height m)" .
  show ?thesis
    using sample_valid_run g9 r n3 p1 p2 by (intro conjI)
qed

section \<open>Failures of the extraction of graphics\<close>

lemma convert_invokes_every_page:
  assumes v: "valid_run w pdf_path dpi first_page last_page d fp lp"
  shows "\<exists>r s' mds.
     convert_pdf_to_markdown w pdf_path (Some out) dpi first_page last_page s = (Inr r, s') \<and>
     length mds = nat (lp - fp + 1) \<and>
     files s' out =
       Some (Text (markdown_header (stem pdf_path) (strftime_now w) (nat (lp - fp + 1))) # sections mds) \<and>
     (\<forall>p \<in> {fp..lp}. Invoke (raster_path (mkdtemp w) IMAGE_FORMAT p) \<in> set (trace s'))"
proof -
  let ?n = "nat (lp - fp + 1)"
  let ?ips = "map (raster_path (mkdtemp w) IMAGE_FORMAT) [fp..lp]"
  let ?all = "pages_with_graphics (fitz_open d) (images_dir_of out) [fp..lp]"
  obtain outs and s2 :: sys and evs2 s' where
    R: "convert_pdf_to_markdown w pdf_path (Some out) dpi first_page last_page s =
       (Inr \<lparr>successful = ?n - length (concat (map (\<lambda>out. fst (snd out)) outs)), total = ?n\<rparr>, s')"
    "length outs = ?n"
    "\<forall>i < ?n. \<exists>tr. page_outcome w ?all (Some (images_dir_of out)) fp (Suc i, ?ips ! i) tr (outs ! i)"
    "\<forall>p. length p \<noteq> length (parent out) + 2 \<longrightarrow> files s2 p = files s p"
    "files s' =
       (\<lambda>p. if p = metadata_file out \<and> ?all \<noteq> []
            then Some [Json (metadata_json (stem pdf_path) (isoformat_now w) ?all)]
            else if p = failed_pages_file out \<and> concat (map (\<lambda>out. fst (snd out)) outs) \<noteq> []
            then Some [Json (JArr (map failure_json (concat (map (\<lambda>out. fst (snd out)) outs))))]
            else if p = out
            then Some (Text (markdown_header (stem pdf_path) (strftime_now w) ?n) #
                       page_sections (enumerate_from 1 ?ips) outs)
            else files s2 p)"
    "trace s' = trace s @ map Rasterize [fp..lp] @ evs2 @ concat (map (\<lambda>out. snd (snd out)) outs)"
    "\<forall>e \<in> set evs2. \<forall>q. e \<noteq> Invoke q"
    by (rule convert_run [OF v])
  define mds where "mds = map fst outs"
  have len: "length mds = ?n" using R(2) by (simp add: mds_def)
  have "length ?ips = length outs" using R(2) by simp
  then have sec: "page_sections (enumerate_from 1 ?ips) outs = sections mds"
    unfolding mds_def by (rule page_sections_sections)
  have fl: "files s' out = Some (Text (markdown_header (stem pdf_path) (strftime_now w) ?n) # sections mds)"
    using out_neq_metadata_file [of out] out_neq_failed_pages_file [of out] sec
    by (simp add: R(5))
  have inv: "\<forall>p \<in> {fp..lp}. Invoke (raster_path (mkdtemp w) IMAGE_FORMAT p) \<in> set (trace s')"
  proof
    fix p assume p: "p \<in> {fp..lp}"
    define i where "i = nat (p - fp)"
    from p have i: "i < ?n" and pi: "p = fp + int i" by (auto simp: i_def)
    let ?p = "raster_path (mkdtemp w) IMAGE_FORMAT (fp + int i)"
    have ip: "?ips ! i = ?p" using i by (rule nth_raster_paths)
    obtain md nf evs where o: "outs ! i = (md, nf, evs)" by (cases "outs ! i")
    from R(3) i ip o obtain tr where
      po: "page_outcome w ?all (Some (images_dir_of out)) fp (Suc i, ?p) tr (md, nf, evs)"
      by force
    from page_outcome_invoked [OF po] have "Invoke ?p \<in> set evs" .
    moreover have "outs ! i \<in> set outs" using i R(2) by simp
    ultimately have "Invoke ?p \<in> set (concat (map (\<lambda>out. snd (snd out)) outs))"
      using o by force
    then show "Invoke (raster_path (mkdtemp w) IMAGE_FORMAT p) \<in> set (trace s')"
      using pi by (simp add: R(6))
  qed
  from R(1) len fl inv show ?thesis by blast
qed

text \<open>
  The claim that a failed extraction leaves its page with zero graphics and never stops the
  run fails on the code in both directions. The \<^verbatim>\<open>try\<close> of
  \<^verbatim>\<open>extract_images_from_page\<close> is inside the loop over the graphics: on page 1 of the sample
  document PyMuPDF raises on the second graphic, the failure is logged, and the page still
  yields its first graphic. The call of \<^verbatim>\<open>extract_images_from_page\<close> in step 2 has no
  \<^verbatim>\<open>try\<close> of its own: where the call itself raises, as for page 2 of a file of which PyMuPDF
  sees one page, the run ends with that error before any inference, and writes no output.
\<close>

theorem failed_extraction_is_not_zero_graphics:
  "fst (extract_images_from_page sample_document 1 sample_images_dir 100 100 empty_sys) =
     Inr [\<lparr>m_filename = ''page_001_img_001.png'',
           m_path = ''output/sample_images/page_001_img_001.png'',
           m_width = 640, m_height = 480, m_size = 8, m_format = ''png'', m_page_num = 1,
           m_index = 1\<rparr>] \<and>
   trace after_extraction =
     [ExtractImage 7, ExtractImage 8,
      LogError ''Error extracting image 2 from page 1: bad xref'', ExtractImage 9] \<and>
   fst cut_run = Inl (ValueError ''Invalid page number: 2'') \<and>
   trace (snd cut_run) =
     [Rasterize 1, Rasterize 2, ExtractImage 7, ExtractImage 8,
      LogError ''Error extracting image 2 from page 1: bad xref'', ExtractImage 9] \<and>
   files (snd cut_run) sample_output_path = None"
  by code_simp

text \<open>
  C4, as amended. A failure to extract one graphic is not fatal. (1) For a page of the
  document \<^verbatim>\<open>extract_images_from_page\<close> never raises: it returns the graphics of the page that
  were extracted, and asks PyMuPDF once for each listed graphic, in order, a request that
  raises being followed by one ERROR record and by nothing else. (2) A graphic on which
  PyMuPDF raises yields no graphic; the other graphics of the page are kept. (3) For a page
  number outside the document the call raises \<^verbatim>\<open>ValueError\<close> and changes nothing. (4) A run
  with an output path over a valid range, which lies inside the document, returns whatever
  the extraction of single graphics does: every page of the range is sent to inference, and
  the output is the header and the sections of the accepted page texts.
\<close>

theorem failed_graphic_is_skipped:
  "(1 \<le> page_num \<and> page_num \<le> page_count doc \<longrightarrow>
      (\<exists>s'. extract_images_from_page doc page_num output_dir min_width min_height s =
               (Inr (concat (map (graphic_of doc page_num output_dir min_width min_height)
                               (enumerate_from 1 (get_images doc (page_num - 1))))), s') \<and>
            trace s' =
              trace s @
              concat (map (\<lambda>x. ExtractImage (snd x) # extract_error_log doc page_num x)
                        (enumerate_from 1 (get_images doc (page_num - 1)))))) \<and>
   (extract_image doc xref = Raised e \<longrightarrow>
      graphic_of doc page_num output_dir min_width min_height (img_index, xref) = [] \<and>
      extract_error_log doc page_num (img_index, xref) =
        [LogError (''Error extracting image '' @ show_nat img_index @ '' from page '' @
                   show_int page_num @ '': '' @ str_error e)]) \<and>
   (\<not> (1 \<le> q \<and> q \<le> page_count doc) \<longrightarrow>
      extract_images_from_page doc q output_dir min_width min_height s =
        (Inl (ValueError (''Invalid page number: '' @ show_int q)), s)) \<and>
   (valid_run w pdf_path dpi first_page last_page d fp lp \<longrightarrow>
      (\<exists>r s' mds.
         convert_pdf_to_markdown w pdf_path (Some out) dpi first_page last_page s0 = (Inr r, s') \<and>
         length mds = nat (lp - fp + 1) \<and>
         files s' out =
           Some (Text (markdown_header (stem pdf_path) (strftime_now w) (nat (lp - fp + 1))) #
                 sections mds) \<and>
         (\<forall>p \<in> {fp..lp}. Invoke (raster_path (mkdtemp w) IMAGE_FORMAT p) \<in> set (trace s'))))"
proof -
  have a: "\<exists>s'. extract_images_from_page doc page_num output_dir min_width min_height s =
               (Inr (concat (map (graphic_of doc page_num output_dir min_width min_height)
                               (enumerate_from 1 (get_images doc (page_num - 1))))), s') \<and>
            trace s' =
              trace s @
              concat (map (\<lambda>x. ExtractImage (snd x) # extract_error_log doc page_num x)
                        (enumerate_from 1 (get_images doc (page_num - 1))))"
    if "1 \<le> page_num \<and> page_num \<le> page_count doc"
    using extract_images_from_page_result [of page_num doc output_dir min_width min_height s] that
    unfolding page_graphics_def by blast
  have b: "graphic_of doc page_num output_dir min_width min_height (img_index, xref) = [] \<and>
      extract_error_log doc page_num (img_index, xref) =
        [LogError (''Error extracting image '' @ show_nat img_index @ '' from page '' @
                   show_int page_num @ '': '' @ str_error e)]"
    if "extract_image doc xref = Raised e"
    using that by (simp add: graphic_of_def extract_error_log_def)
  have c: "extract_images_from_page doc q output_dir min_width min_height s =
        (Inl (ValueError (''Invalid page number: '' @ show_int q)), s)"
    if "\<not> (1 \<le> q \<and> q \<le> page_count doc)"
    using that by (auto simp: extract_images_from_page_def)
  have d: "\<exists>r s' mds.
         convert_pdf_to_markdown w pdf_path (Some out) dpi first_page last_page s0 = (Inr r, s') \<and>
         length mds = nat (lp - fp + 1) \<and>
         files s' out =
           Some (Text (markdown_header (stem pdf_path) (strftime_now w) (nat (lp - fp + 1))) #
                 sections mds) \<and>
         (\<forall>p \<in> {fp..lp}. Invoke (raster_path (mkdtemp w) IMAGE_FORMAT p) \<in> set (trace s'))"
    if "valid_run w pdf_path dpi first_page last_page d fp lp"
    using that by (rule convert_invokes_every_page)
  show ?thesis
    by (intro conjI; rule impI) (erule a, erule b, erule c, erule d)
qed

theorem failed_graphic_is_skipped_witness:
  "(1 \<le> (1::int) \<and> 1 \<le> page_count sample_document) \<and>
   extract_image sample_document 8 = Raised (Exception ''bad xref'') \<and>
   \<not> (1 \<le> (3::int) \<and> 3 \<le> page_count sample_document) \<and>
   valid_run sample_world sample_pdf_path 450 None None sample_pdf 1 2 \<and>
   (\<exists>s'. extract_images_from_page sample_document 1 sample_images_dir 100 100 empty_sys =
           (Inr [\<lparr>m_filename = ''page_001_img_001.png'',
                  m_path = ''output/sample_images/page_001_img_001.png'',
                  m_width = 640, m_height = 480, m_size = 8, m_format = ''png'', m_page_num = 1,
                  m_index = 1\<rparr>], s') \<and>
         trace s' =
           [ExtractImage 7, ExtractImage 8,
            LogError ''Error extracting image 2 from page 1: bad xref'', ExtractImage 9]) \<and>
   graphic_of sample_document 1 sample_images_dir 100 100 (2, 8) = [] \<and>
   extract_images_from_page sample_document 3 sample_images_dir 100 100 empty_sys =
     (Inl (ValueError ''Invalid page number: 3''), empty_sys) \<and>
   (\<exists>r s' mds.
      convert_pdf_to_markdown sample_world sample_pdf_path (Some sample_output_path) 450 None None
        empty_sys = (Inr r, s') \<and>
      length mds = 2 \<and>
      files s' sample_output_path =
        Some (Text (markdown_header (stem sample_pdf_path) (strftime_now sample_world) 2) #
              sections mds) \<and>
      (\<forall>p \<in> {1..2}.
         Invoke (raster_path (mkdtemp sample_world) IMAGE_FORMAT p) \<in> set (trace s')))"
proof -
  note T = failed_graphic_is_skipped [where doc = sample_document and page_num = 1
      and output_dir = sample_images_dir and min_width = 100 and min_height = 100
      and s = empty_sys and xref = 8 and e = "Exception ''bad xref''" and img_index = 2
      and q = 3 and w = sample_world and pdf_path = sample_pdf_path and dpi = 450
      and first_page = None and last_page = None and d = sample_pdf and fp = 1 and lp = 2
      and out = sample_output_path and ?s0.0 = empty_sys]
  have h1a: "1 \<le> (1::int)"
    by simp
  have h1b: "1 \<le> page_count sample_document"
    by (simp add: sample_document_def)
  note h1 = conjI [OF h1a h1b]
  have h2: "extract_image sample_document 8 = Raised (Exception ''bad xref'')"
    by (simp add: sample_document_def)
  have h3: "\<not> (1 \<le> (3::int) \<and> 3 \<le> page_count sample_document)"
    by (simp add: sample_document_def)
  have g: "concat (map (graphic_of sample_document 1 sample_images_dir 100 100)
             (enumerate_from 1 (get_images sample_document (1 - 1)))) =
           [\<lparr>m_filename = ''page_001_img_001.png'',
                  m_path = ''output/sample_images/page_001_img_001.png'',
                  m_width = 640, m_height = 480, m_size = 8, m_format = ''png'', m_page_num = 1,
                  m_index = 1\<rparr>]"
    by code_simp
  have l: "trace empty_sys @
           concat (map (\<lambda>x. ExtractImage (snd x) # extract_error_log sample_document 1 x)
             (enumerate_from 1 (get_images sample_document (1 - 1)))) =
           [ExtractImage 7, ExtractImage 8,
            LogError ''Error extracting image 2 from page 1: bad xref'', ExtractImage 9]"
    by code_simp
  have n3: "''Invalid page number: '' @ show_int 3 = ''Invalid page number: 3''"
    by code_simp
  have n2: "nat (2 - 1 + 1) = 2"
    by simp
  from T [THEN conjunct1, rule_format, OF h1]
  have c1: "\<exists>s'. extract_images_from_page sample_document 1 sample_images_dir 100 100 empty_sys =
           (Inr [\<lparr>m_filename = ''page_001_img_001.png'',
                  m_path = ''output/sample_images/page_001_img_001.png'',
                  m_width = 640, m_height = 480, m_size = 8, m_format = ''png'', m_page_num = 1,
                  m_index = 1\<rparr>], s') \<and>
         trace s' =
           [ExtractImage 7, ExtractImage 8,
            LogError ''Error extracting image 2 from page 1: bad xref'', ExtractImage 9]"
    unfolding g l .
  from T [THEN conjunct2, THEN conjunct1, rule_format, OF h2]
  have c2: "graphic_of sample_document 1 sample_images_dir 100 100 (2, 8) = []"
    by (rule conjunct1)
  from T [THEN conjunct2, THEN conjunct2, THEN conjunct1, rule_format, OF h3]
  have c3: "extract_images_from_page sample_document 3 sample_images_dir 100 100 empty_sys =
     (Inl (ValueError ''Invalid page number: 3''), empty_sys)"
    unfolding n3 .
  from T [THEN conjunct2, THEN conjunct2, THEN conjunct2, rule_format, OF sample_valid_run]
  have c4: "\<exists>r s' mds.
      convert_pdf_to_markdown sample_world sample_pdf_path (Some sample_output_path) 450 None None
        empty_sys = (Inr r, s') \<and>
      length mds = 2 \<and>
      files s' sample_output_path =
        Some (Text (markdown_header (stem sample_pdf_path) (strftime_now sample_world) 2) #
              sections mds) \<and>
      (\<forall>p \<in> {1..2}.
         Invoke (raster_path (mkdtemp sample_world) IMAGE_FORMAT p) \<in> set (trace s'))"
    unfolding n2 .
  show ?thesis
    using h1a h1b h2 h3 sample_valid_run c1 c2 c3 c4 by (intro conjI)
qed

section \<open>The metadata annotation\<close>

text \<open>
  A comment of one line after the placeholder is captured by the pattern, and the metadata
  is appended to it.
\<close>

lemma comment_of_one_line_is_extended:
  "replace_image_placeholders_single_page
     ''![Process Flowchart](IMAGE_PLACEHOLDER)\<newline><!-- Image Description: a flowchart -->''
     [sample_graphic] 1 (Some ''doc_images'') =
     ''![Process Flowchart](doc_images/page_001_img_001.png)\<newline>'' @
     ''<!-- Image Description: a flowchart\<newline>'' @
     ''File: page_001_img_001.png | Dimensions: 640x480px | Size: 2.0KB | Format: png | Page: 1 -->''"
  by code_simp


end
